theory Spec2Isabelle
  imports Main "HOL-Library.Sublist"
begin

section \<open>Strings, runes and the library functions the program calls\<close>

text \<open>
  A Go string is a byte sequence that the program reads as UTF-8 text: \<open>range s\<close>,
  \<open>[]rune(s)\<close>, \<open>strings.Fields\<close> and \<open>strings.ToLower\<close> all work on the decoded code
  points. The model represents a string by its sequence of code points (runes), and gets
  the byte length \<open>len(s)\<close> back from the UTF-8 encoding length of each rune. String
  literals of the source are written \<open>S ''...''\<close> when they are ASCII.
\<close>

type_synonym rune = nat
type_synonym gostring = "rune list"

definition S :: "string \<Rightarrow> gostring" where
  "S cs = map of_char cs"

text \<open>
  \<open>string(runes)\<close> of a rune slice, as the key handlers build text from typed runes: a
  surrogate half or a value beyond U+10FFFF is written as U+FFFD.
\<close>

definition runesToString :: "rune list \<Rightarrow> gostring" where
  "runesToString rs =
     map (\<lambda>r. if (0xD800 \<le> r \<and> r \<le> 0xDFFF) \<or> 0x10FFFF < r then 0xFFFD else r) rs"

text \<open>Number of bytes of one rune in UTF-8, and \<open>len(s)\<close> of a string.\<close>

definition utf8len :: "rune \<Rightarrow> nat" where
  "utf8len r = (if r < 0x80 then 1 else if r < 0x800 then 2 else if r < 0x10000 then 3 else 4)"

definition len :: "gostring \<Rightarrow> int" where
  "len s = int (sum_list (map utf8len s))"

text \<open>\<open>unicode.IsSpace\<close>: the Latin-1 cases and the White_Space table.\<close>

definition isSpace :: "rune \<Rightarrow> bool" where
  "isSpace r \<longleftrightarrow>
     (0x09 \<le> r \<and> r \<le> 0x0D) \<or> r = 0x20 \<or> r = 0x85 \<or> r = 0xA0 \<or> r = 0x1680 \<or>
     (0x2000 \<le> r \<and> r \<le> 0x200A) \<or> r = 0x2028 \<or> r = 0x2029 \<or> r = 0x202F \<or>
     r = 0x205F \<or> r = 0x3000"

text \<open>
  \<open>strings.ToLower\<close> maps every rune through \<open>unicode.ToLower\<close>. The runes whose lower case
  is an ASCII letter are \<open>A\<close>..\<open>Z\<close>, U+0130 (to \<open>i\<close>) and U+212A (to \<open>k\<close>). Every other
  rune that changes is mapped to a letter outside ASCII, which the callers below treat
  exactly as they treat the unchanged rune, so the model leaves those in place.
  \<open>strings.ToUpper\<close> likewise: \<open>a\<close>..\<open>z\<close>, U+0131 (to \<open>I\<close>) and U+017F (to \<open>S\<close>).
\<close>

definition toLowerRune :: "rune \<Rightarrow> rune" where
  "toLowerRune r =
     (if 0x41 \<le> r \<and> r \<le> 0x5A then r + 0x20
      else if r = 0x130 then 0x69
      else if r = 0x212A then 0x6B
      else r)"

definition ToLower :: "gostring \<Rightarrow> gostring" where
  "ToLower s = map toLowerRune s"

definition toUpperRune :: "rune \<Rightarrow> rune" where
  "toUpperRune r =
     (if 0x61 \<le> r \<and> r \<le> 0x7A then r - 0x20
      else if r = 0x131 then 0x49
      else if r = 0x17F then 0x53
      else r)"

definition ToUpper :: "gostring \<Rightarrow> gostring" where
  "ToUpper s = map toUpperRune s"

text \<open>\<open>strings.TrimRight(s, cutset)\<close> removes the trailing runes that occur in the cutset.\<close>

definition TrimRight :: "gostring \<Rightarrow> gostring \<Rightarrow> gostring" where
  "TrimRight s cutset = rev (dropWhile (\<lambda>r. r \<in> set cutset) (rev s))"

text \<open>\<open>strings.ReplaceAll(s, "/", "-")\<close>, the only use the program makes of it.\<close>

definition ReplaceSlash :: "gostring \<Rightarrow> gostring" where
  "ReplaceSlash s = map (\<lambda>r. if r = 0x2F then 0x2D else r) s"

text \<open>
  \<open>strings.Split(s, "\n")\<close>: the pieces between newlines; never an empty list.
  \<open>SplitAux cur rest\<close> carries the piece being read.
\<close>

fun SplitAux :: "gostring \<Rightarrow> gostring \<Rightarrow> gostring list" where
  "SplitAux cur [] = [cur]"
| "SplitAux cur (r # rs) = (if r = 0x0A then cur # SplitAux [] rs else SplitAux (cur @ [r]) rs)"

definition SplitNL :: "gostring \<Rightarrow> gostring list" where
  "SplitNL s = SplitAux [] s"

text \<open>\<open>strings.Fields\<close>: the maximal runs of runes that are not white space.\<close>

fun FieldsAux :: "gostring \<Rightarrow> gostring \<Rightarrow> gostring list" where
  "FieldsAux cur [] = (if cur = [] then [] else [cur])"
| "FieldsAux cur (r # rs) =
     (if isSpace r then (if cur = [] then FieldsAux [] rs else cur # FieldsAux [] rs)
      else FieldsAux (cur @ [r]) rs)"

definition Fields :: "gostring \<Rightarrow> gostring list" where
  "Fields s = FieldsAux [] s"


section \<open>Domain model\<close>

text \<open>
  The types of \<open>internal/types\<close>. Go's \<open>int\<close> is modelled by \<open>int\<close>; where the program adds
  to a counter without a guard that bounds it, the 64-bit wrap-around is written out
  with \<open>wrap64\<close>. Every other sum in the handlers is guarded by a comparison with a slice
  length, which a Go \<open>int\<close> always holds.
\<close>

datatype AppState =
    StateNoGit | StateShellSetup | StateList | StateNewWorktree | StateEditWorktree
  | StateDeleteConfirm | StateRightPaneFocused | StateCommitDetail

record Commit =
  Hash :: gostring
  Message :: gostring
  RelTime :: gostring

record Worktree =
  Name :: gostring
  Path :: gostring
  Branch :: gostring
  IsMain :: bool
  UpdatedAt :: gostring
  Description :: gostring
  CreatedFrom :: gostring
  Ahead :: int
  Behind :: int
  IsMerged :: bool
  Commits :: "Commit list"
  HeadSHA :: gostring
  StatusChanged :: int
  StatusUntracked :: int

record PRInfo =
  State :: gostring
  Number :: int
  URL :: gostring

record CommitFile =
  Status :: gostring
  FilePath :: gostring

record DiffLine =
  DiffType :: gostring
  Content :: gostring

record CommitDetail =
  ShortHash :: gostring
  Subject :: gostring
  Body :: gostring
  DetailRelTime :: gostring
  Files :: "CommitFile list"
  Diff :: "DiffLine list"
  Loaded :: bool

definition wrap64 :: "int \<Rightarrow> int" where
  "wrap64 x = (x + 2 ^ 63) mod 2 ^ 64 - 2 ^ 63"

text \<open>Go's \<open>/\<close> and \<open>%\<close> on integers truncate towards zero.\<close>

definition goDiv :: "int \<Rightarrow> int \<Rightarrow> int" where
  "goDiv a b = sgn a * sgn b * (\<bar>a\<bar> div \<bar>b\<bar>)"

definition goRem :: "int \<Rightarrow> int \<Rightarrow> int" where
  "goRem a b = sgn a * (\<bar>a\<bar> mod \<bar>b\<bar>)"

text \<open>
  Indexing a slice panics out of range. \<open>index\<close> returns \<open>None\<close> there, and every caller
  turns \<open>None\<close> into the panic.
\<close>

datatype Panic = IndexOutOfRange

definition index :: "'a list \<Rightarrow> int \<Rightarrow> 'a option" where
  "index xs i = (if 0 \<le> i \<and> i < int (length xs) then Some (xs ! nat i) else None)"

section \<open>The model, its messages and its commands\<close>

text \<open>
  The PR cache is a Go map from branch to \<open>*PRInfo\<close>: an absent key is \<open>None\<close>, a key with a
  nil pointer is \<open>Some None\<close>. A nil map and an empty map read alike, and the program
  allocates the map before it writes, so both are the empty map here.
\<close>

record Model =
  state :: AppState
  worktrees :: "Worktree list"
  repoName :: gostring
  curBranch :: gostring
  cursor :: int
  width :: int
  height :: int
  remoteURL :: gostring
  stashCount :: int
  fetchedAgo :: gostring
  defaultBranch :: gostring
  ghAvailable :: bool
  prCache :: "gostring \<rightharpoonup> PRInfo option"
  hasCommits :: bool
  newTypeIdx :: int
  newTypeListOpen :: bool
  newDisplayName :: gostring
  newBranch :: gostring
  newDescription :: gostring
  newActiveField :: int
  newBranchEdited :: bool
  editName :: gostring
  selectedCommitIndex :: int
  commitDetailScroll :: int
  activeCommit :: CommitDetail
  errMsg :: gostring

definition emptyCommitDetail :: CommitDetail where
  "emptyCommitDetail =
     \<lparr>ShortHash = [], Subject = [], Body = [], DetailRelTime = [], Files = [], Diff = [],
      Loaded = False\<rparr>"

definition InitialModel :: Model where
  "InitialModel =
     \<lparr>state = StateNoGit, worktrees = [], repoName = [], curBranch = [], cursor = 0,
      width = 0, height = 0, remoteURL = [], stashCount = 0, fetchedAgo = [],
      defaultBranch = [], ghAvailable = False, prCache = Map.empty, hasCommits = False,
      newTypeIdx = 0, newTypeListOpen = False, newDisplayName = [], newBranch = [],
      newDescription = [], newActiveField = 0, newBranchEdited = False, editName = [],
      selectedCommitIndex = 0, commitDetailScroll = 0, activeCommit = emptyCommitDetail,
      errMsg = []\<rparr>"

text \<open>
  A key press of the terminal library, with the fields the handlers read. \<open>KeyString\<close> is
  the library's \<open>String()\<close>: the runes of a rune key (in brackets when pasted), the name of
  a named key, with \<open>alt+\<close> in front when Alt is held. \<open>KeyOther\<close> stands for every key
  type the handlers do not name, with its name.
\<close>

datatype KeyType =
    KeyRunes | KeyEnter | KeyEsc | KeyTab | KeyDown | KeyUp | KeySpace | KeyBackspace
  | KeyCtrlC | KeyOther gostring

record KeyMsg =
  Type :: KeyType
  Runes :: "rune list"
  Alt :: bool
  Paste :: bool

fun keyNames :: "KeyType \<Rightarrow> gostring" where
  "keyNames KeyRunes = []"
| "keyNames KeyEnter = S ''enter''"
| "keyNames KeyEsc = S ''esc''"
| "keyNames KeyTab = S ''tab''"
| "keyNames KeyDown = S ''down''"
| "keyNames KeyUp = S ''up''"
| "keyNames KeySpace = S '' ''"
| "keyNames KeyBackspace = S ''backspace''"
| "keyNames KeyCtrlC = S ''ctrl+c''"
| "keyNames (KeyOther name) = name"

definition KeyString :: "KeyMsg \<Rightarrow> gostring" where
  "KeyString k =
     (if Alt k then S ''alt+'' else []) @
     (if Type k = KeyRunes
      then (if Paste k then S ''['' else []) @ runesToString (Runes k)
             @ (if Paste k then S '']'' else [])
      else keyNames (Type k))"

text \<open>An error value is \<open>None\<close> for nil and \<open>Some\<close> of its message otherwise.\<close>

type_synonym error = "gostring option"

record worktreesLoaded =
  msgWorktrees :: "Worktree list"
  msgRepoName :: gostring
  msgCurBranch :: gostring
  msgRemoteURL :: gostring
  msgStashCount :: int
  msgFetchedAgo :: gostring
  msgDefaultBranch :: gostring
  msgGhAvailable :: bool
  msgHasCommits :: bool
  msgErr :: error

datatype Msg =
    WindowSizeMsg int int
  | gitCheckMsg bool
  | worktreesLoadedMsg worktreesLoaded
  | prFetchedMsg gostring "PRInfo option"
  | commitDetailLoadedMsg "CommitDetail option" error
  | gitInitMsg error
  | worktreeCreatedMsg error
  | worktreeDeletedMsg error
  | worktreeRenamedMsg error
  | KeyPress KeyMsg
  | OtherMsg

text \<open>
  The commands an update can return, by the name of the function that builds them, and
  the calls into \<open>internal/git\<close> that an update makes on the spot.
\<close>

datatype Cmd =
    Quit
  | checkGitRepo
  | loadWorktrees
  | initGitRepo
  | fetchPR gostring
  | loadCommitDetail gostring gostring
  | createWorktree gostring gostring gostring gostring
  | deleteWorktree gostring gostring
  | renameWorktree gostring gostring

datatype Effect = SetupShellIntegration | MarkShellIntegrated | WriteCDPath gostring

text \<open>
  What an update reads from outside the model: \<open>git.IsShellIntegrated()\<close>, and the path
  \<open>filepath.Join(root, ".wt", p)\<close> under the root that \<open>git.GetRepoRoot()\<close> reports.
\<close>

record Env =
  IsShellIntegrated :: bool
  wtPath :: "gostring \<Rightarrow> gostring"

type_synonym Result = "Panic + Model \<times> Cmd option \<times> Effect list"

definition branchTypes :: "gostring list" where
  "branchTypes =
     [S ''feat'', S ''fix'', S ''chore'', S ''docs'', S ''refactor'',
      S ''test'', S ''style'', S ''ci'', S ''perf'', S ''release'']"

text \<open>
  The three screens are drawn with the terminal styling library, which is outside the
  repository; the view takes them as parameters.
\<close>

record Screens =
  viewNoGit :: "Model \<Rightarrow> gostring"
  viewShellSetup :: "Model \<Rightarrow> gostring"
  viewMain :: "Model \<Rightarrow> gostring"

section \<open>Text helpers of the view\<close>

text \<open>
  \<open>truncate(s, max)\<close> counts runes (\<open>len([]rune(s))\<close>) and appends the ellipsis U+2026.
\<close>

definition truncate :: "gostring \<Rightarrow> int \<Rightarrow> gostring" where
  "truncate s mx =
     (if mx \<le> 0 then []
      else if int (length s) \<le> mx then s
      else if mx \<le> 1 then take (nat mx) s
      else take (nat (mx - 1)) s @ [0x2026])"

text \<open>
  \<open>lipgloss.Width\<close> is not part of the repository: it counts terminal cells. \<open>runeCells\<close>
  gives two cells to the runes of the East Asian wide and full-width blocks named in its
  body and none to the combining marks U+0300..U+036F. Every other rune is counted as
  one cell, which is right for printable ASCII and is not claimed for the rest; the
  table is read below at CJK ideographs only.
\<close>

definition runeCells :: "rune \<Rightarrow> nat" where
  "runeCells r =
     (if 0x0300 \<le> r \<and> r \<le> 0x036F then 0
      else if (0x1100 \<le> r \<and> r \<le> 0x115F) \<or> (0x2E80 \<le> r \<and> r \<le> 0xA4CF) \<or>
              (0xAC00 \<le> r \<and> r \<le> 0xD7A3) \<or> (0xF900 \<le> r \<and> r \<le> 0xFAFF) \<or>
              (0xFE30 \<le> r \<and> r \<le> 0xFE6F) \<or> (0xFF00 \<le> r \<and> r \<le> 0xFF60) \<or>
              (0xFFE0 \<le> r \<and> r \<le> 0xFFE6) then 2
      else 1)"

definition displayWidth :: "gostring \<Rightarrow> int" where
  "displayWidth s = int (sum_list (map runeCells s))"

text \<open>
  \<open>wrapWords\<close>: the inner loop over the words of a paragraph carries \<open>line\<close> and \<open>lines\<close>;
  the outer loop over the paragraphs carries \<open>lines\<close>. Lengths are byte lengths, as
  \<open>len(line)+1+len(w)\<close> is in the source. The parameter \<open>width\<close> is written \<open>wdth\<close>
  (\<open>width\<close> is a field of the model), as \<open>max\<close> is written \<open>mx\<close> in \<open>truncate\<close>.
\<close>

fun wrapLoop :: "int \<Rightarrow> gostring \<Rightarrow> gostring list \<Rightarrow> gostring list \<Rightarrow> gostring \<times> gostring list" where
  "wrapLoop wdth line lines [] = (line, lines)"
| "wrapLoop wdth line lines (w # ws) =
     (if line = [] then wrapLoop wdth w lines ws
      else if len line + 1 + len w \<le> wdth then wrapLoop wdth (line @ [0x20] @ w) lines ws
      else wrapLoop wdth w (lines @ [line]) ws)"

fun wrapParagraphs :: "int \<Rightarrow> gostring list \<Rightarrow> gostring list \<Rightarrow> gostring list" where
  "wrapParagraphs wdth lines [] = lines"
| "wrapParagraphs wdth lines (paragraph # ps) =
     (case wrapLoop wdth [] lines (Fields paragraph) of
        (line, lines') \<Rightarrow>
          wrapParagraphs wdth (if line \<noteq> [] then lines' @ [line] else lines') ps)"

definition wrapWords :: "gostring \<Rightarrow> int \<Rightarrow> gostring list" where
  "wrapWords s wdth =
     (if wdth \<le> 0 then [s] else wrapParagraphs wdth [] (SplitNL s))"

text \<open>
  \<open>slugify\<close>: the loop over the lower-cased runes carries the builder \<open>b\<close> and \<open>prevSep\<close>.
\<close>

fun slugLoop :: "gostring \<Rightarrow> bool \<Rightarrow> gostring \<Rightarrow> gostring" where
  "slugLoop b prevSep [] = b"
| "slugLoop b prevSep (r # rs) =
     (if (0x61 \<le> r \<and> r \<le> 0x7A) \<or> (0x30 \<le> r \<and> r \<le> 0x39) then slugLoop (b @ [r]) False rs
      else if r = 0x2F then slugLoop (b @ [0x2F]) False rs
      else if isSpace r \<or> r = 0x5F \<or> r = 0x2D then
        (if \<not> prevSep \<and> b \<noteq> [] then slugLoop (b @ [0x2D]) True rs
         else slugLoop b prevSep rs)
      else slugLoop b prevSep rs)"

definition slugify :: "gostring \<Rightarrow> gostring" where
  "slugify s = TrimRight (slugLoop [] False (ToLower s)) (S ''-/'')"

text \<open>\<open>dropLast\<close> removes the last rune.\<close>

definition dropLast :: "gostring \<Rightarrow> gostring" where
  "dropLast s = (if length s = 0 then s else take (length s - 1) s)"

text \<open>The runes a slug is made of, and the test for two hyphens in a row.\<close>

definition slugAlphabet :: "rune set" where
  "slugAlphabet = {r. (0x61 \<le> r \<and> r \<le> 0x7A) \<or> (0x30 \<le> r \<and> r \<le> 0x39) \<or> r = 0x2F \<or> r = 0x2D}"

fun adjacentHyphens :: "gostring \<Rightarrow> bool" where
  "adjacentHyphens (x # y # zs) = ((x = 0x2D \<and> y = 0x2D) \<or> adjacentHyphens (y # zs))"
| "adjacentHyphens _ = False"


text \<open>
  \<open>slugifySpec\<close> is written from the words of the specification, not from the loop:
  lower-case the input; keep letters, digits and \<open>/\<close>, read every space, underscore and
  hyphen as a hyphen and drop every other rune; collapse each run of hyphens into one;
  strip the leading hyphens; trim the trailing \<open>-\<close> and \<open>/\<close>.
\<close>

definition isSlugChar :: "rune \<Rightarrow> bool" where
  "isSlugChar r \<longleftrightarrow> (0x61 \<le> r \<and> r \<le> 0x7A) \<or> (0x30 \<le> r \<and> r \<le> 0x39) \<or> r = 0x2F"

definition isSlugSep :: "rune \<Rightarrow> bool" where
  "isSlugSep r \<longleftrightarrow> isSpace r \<or> r = 0x5F \<or> r = 0x2D"

definition slugRunes :: "gostring \<Rightarrow> gostring" where
  "slugRunes s =
     map (\<lambda>r. if isSlugSep r then 0x2D else r) (filter (\<lambda>r. isSlugChar r \<or> isSlugSep r) s)"

fun collapseHyphens :: "gostring \<Rightarrow> gostring" where
  "collapseHyphens (x # y # zs) =
     (if x = 0x2D \<and> y = 0x2D then collapseHyphens (y # zs) else x # collapseHyphens (y # zs))"
| "collapseHyphens xs = xs"

definition slugifySpec :: "gostring \<Rightarrow> gostring" where
  "slugifySpec s =
     TrimRight (dropWhile (\<lambda>r. r = 0x2D) (collapseHyphens (slugRunes (ToLower s)))) (S ''-/'')"

section \<open>The update function\<close>

text \<open>
  Every handler returns the new model, the command (\<open>None\<close> for nil) and the calls it made
  into \<open>internal/git\<close>, or the panic of an index out of range.
\<close>

definition resetNewModal :: "Model \<Rightarrow> Model" where
  "resetNewModal m =
     m\<lparr>newTypeIdx := 0, newTypeListOpen := False, newDisplayName := [], newBranch := [],
       newDescription := [], newActiveField := 0, newBranchEdited := False\<rparr>"

definition openNewModal :: "Model \<Rightarrow> Model" where
  "openNewModal m = (resetNewModal m)\<lparr>state := StateNewWorktree\<rparr>"

definition maybeFetchPR :: "Model \<Rightarrow> Panic + Cmd option" where
  "maybeFetchPR m =
     (if \<not> ghAvailable m \<or> cursor m = 0 \<or> cursor m - 1 \<ge> int (length (worktrees m))
      then Inr None
      else case index (worktrees m) (cursor m - 1) of
             None \<Rightarrow> Inl IndexOutOfRange
           | Some wt \<Rightarrow>
               if IsMain wt then Inr None
               else if prCache m (Branch wt) \<noteq> None then Inr None
               else Inr (Some (fetchPR (Branch wt))))"

definition withFetchPR :: "Model \<Rightarrow> Result" where
  "withFetchPR m =
     (case maybeFetchPR m of Inl p \<Rightarrow> Inl p | Inr c \<Rightarrow> Inr (m, c, []))"

definition handleNoGit :: "Model \<Rightarrow> KeyMsg \<Rightarrow> Result" where
  "handleNoGit m msg =
     (if KeyString msg = S ''i'' then Inr (m, Some initGitRepo, [])
      else if KeyString msg = S ''q'' then Inr (m, Some Quit, [])
      else Inr (m, None, []))"

definition handleShellSetup :: "Model \<Rightarrow> KeyMsg \<Rightarrow> Result" where
  "handleShellSetup m msg =
     (if KeyString msg = S ''y''
      then Inr (m\<lparr>state := StateList\<rparr>, Some loadWorktrees,
                [SetupShellIntegration, MarkShellIntegrated])
      else if KeyString msg = S ''n'' \<or> KeyString msg = S ''esc'' \<or> KeyString msg = S ''q''
      then Inr (m\<lparr>state := StateList\<rparr>, Some loadWorktrees, [MarkShellIntegrated])
      else Inr (m, None, []))"

definition handleList :: "Model \<Rightarrow> KeyMsg \<Rightarrow> Result" where
  "handleList m msg =
     (let total = int (length (worktrees m)) + 1 in
      if KeyString msg = S ''q'' then Inr (m, Some Quit, [])
      else if KeyString msg = S ''up'' \<or> KeyString msg = S ''k''
      then withFetchPR (if cursor m > 0 then m\<lparr>cursor := cursor m - 1\<rparr> else m)
      else if KeyString msg = S ''down'' \<or> KeyString msg = S ''j''
      then withFetchPR (if cursor m < total - 1 then m\<lparr>cursor := cursor m + 1\<rparr> else m)
      else if KeyString msg = S ''enter''
      then (if cursor m = 0 then Inr (openNewModal m, None, [])
            else if cursor m - 1 < int (length (worktrees m))
            then Inr (m\<lparr>selectedCommitIndex := 0, state := StateRightPaneFocused\<rparr>, None, [])
            else Inr (m, None, []))
      else if KeyString msg = S ''n'' then Inr (openNewModal m, None, [])
      else if KeyString msg = S ''d''
      then (if cursor m > 0
            then (case index (worktrees m) (cursor m - 1) of
                    None \<Rightarrow> Inl IndexOutOfRange
                  | Some wt \<Rightarrow>
                      if \<not> IsMain wt then Inr (m\<lparr>state := StateDeleteConfirm\<rparr>, None, [])
                      else Inr (m, None, []))
            else Inr (m, None, []))
      else if KeyString msg = S ''e''
      then (if cursor m > 0
            then (case index (worktrees m) (cursor m - 1) of
                    None \<Rightarrow> Inl IndexOutOfRange
                  | Some wt \<Rightarrow>
                      Inr (m\<lparr>editName := Branch wt, state := StateEditWorktree\<rparr>, None, []))
            else Inr (m, None, []))
      else if KeyString msg = S ''c''
      then (if cursor m > 0
            then (case index (worktrees m) (cursor m - 1) of
                    None \<Rightarrow> Inl IndexOutOfRange
                  | Some wt \<Rightarrow> Inr (m, Some Quit, [WriteCDPath (Path wt)]))
            else Inr (m, None, []))
      else Inr (m, None, []))"

definition recalcBranch :: "Model \<Rightarrow> Panic + Model" where
  "recalcBranch m =
     (if newBranchEdited m then Inr m
      else let slug = slugify (newDisplayName m) in
           case index branchTypes (newTypeIdx m) of
             None \<Rightarrow> Inl IndexOutOfRange
           | Some t \<Rightarrow>
               if slug = [] then Inr (m\<lparr>newBranch := t\<rparr>)
               else Inr (m\<lparr>newBranch := t @ S ''/'' @ slug\<rparr>))"

definition deleteChar :: "Model \<Rightarrow> Panic + Model" where
  "deleteChar m =
     (if newActiveField m = 1
      then recalcBranch (m\<lparr>newDisplayName := dropLast (newDisplayName m)\<rparr>)
      else if newActiveField m = 2
      then Inr (m\<lparr>newBranch := dropLast (newBranch m), newBranchEdited := True\<rparr>)
      else if newActiveField m = 3
      then Inr (m\<lparr>newDescription := dropLast (newDescription m)\<rparr>)
      else Inr m)"

definition appendRunes :: "Model \<Rightarrow> rune list \<Rightarrow> Panic + Model" where
  "appendRunes m runes =
     (if newActiveField m = 0 then Inr m
      else if newActiveField m = 1
      then recalcBranch (m\<lparr>newDisplayName := newDisplayName m @ runesToString runes\<rparr>)
      else if newActiveField m = 2
      then Inr (m\<lparr>newBranch := newBranch m
                    @ runesToString (map (\<lambda>r. if isSpace r then 0x2D else r) runes),
                  newBranchEdited := True\<rparr>)
      else if newActiveField m = 3
      then Inr (m\<lparr>newDescription := newDescription m @ runesToString runes\<rparr>)
      else Inr m)"

definition noCmd :: "Panic + Model \<Rightarrow> Result" where
  "noCmd r = (case r of Inl p \<Rightarrow> Inl p | Inr m \<Rightarrow> Inr (m, None, []))"

definition handleTypeList :: "Model \<Rightarrow> KeyMsg \<Rightarrow> Result" where
  "handleTypeList m msg =
     (if KeyString msg = S ''up'' \<or> KeyString msg = S ''k''
      then Inr (if newTypeIdx m > 0 then m\<lparr>newTypeIdx := newTypeIdx m - 1\<rparr> else m, None, [])
      else if KeyString msg = S ''down'' \<or> KeyString msg = S ''j''
      then Inr (if newTypeIdx m < int (length branchTypes) - 1
                then m\<lparr>newTypeIdx := newTypeIdx m + 1\<rparr> else m, None, [])
      else if KeyString msg = S ''enter''
      then noCmd (recalcBranch (m\<lparr>newTypeListOpen := False\<rparr>))
      else if KeyString msg = S ''esc''
      then Inr (m\<lparr>newTypeListOpen := False\<rparr>, None, [])
      else Inr (m, None, []))"

definition handleNewWorktree :: "Env \<Rightarrow> Model \<Rightarrow> KeyMsg \<Rightarrow> Result" where
  "handleNewWorktree env m msg =
     (if newTypeListOpen m then handleTypeList m msg
      else case Type msg of
        KeyEsc \<Rightarrow> Inr (resetNewModal (m\<lparr>state := StateList\<rparr>), None, [])
      | KeyTab \<Rightarrow> Inr (m\<lparr>newActiveField := goRem (wrap64 (newActiveField m + 1)) 4\<rparr>, None, [])
      | KeyDown \<Rightarrow> Inr (m\<lparr>newActiveField := goRem (wrap64 (newActiveField m + 1)) 4\<rparr>, None, [])
      | KeyUp \<Rightarrow> Inr (m\<lparr>newActiveField := goRem (wrap64 (newActiveField m + 3)) 4\<rparr>, None, [])
      | KeyEnter \<Rightarrow>
          if newActiveField m = 0 then Inr (m\<lparr>newTypeListOpen := True\<rparr>, None, [])
          else if newDisplayName m \<noteq> [] \<and> newBranch m \<noteq> []
          then Inr (m, Some (createWorktree (newDisplayName m) (newBranch m)
                               (wtPath env (ReplaceSlash (newBranch m))) (newDescription m)), [])
          else Inr (m, None, [])
      | KeySpace \<Rightarrow> noCmd (appendRunes m [0x20])
      | KeyBackspace \<Rightarrow> noCmd (deleteChar m)
      | KeyRunes \<Rightarrow> noCmd (appendRunes m (Runes msg))
      | _ \<Rightarrow> Inr (m, None, []))"

definition selectedCommits :: "Model \<Rightarrow> Commit list" where
  "selectedCommits m =
     (if cursor m > 0 \<and> cursor m - 1 < int (length (worktrees m))
      then Commits (worktrees m ! nat (cursor m - 1)) else [])"

definition handleRightPaneFocused :: "Model \<Rightarrow> KeyMsg \<Rightarrow> Result" where
  "handleRightPaneFocused m msg =
     (let commits = selectedCommits m in
      if KeyString msg = S ''q'' then Inr (m, Some Quit, [])
      else if KeyString msg = S ''esc'' then Inr (m\<lparr>state := StateList\<rparr>, None, [])
      else if KeyString msg = S ''up'' \<or> KeyString msg = S ''k''
      then Inr (if selectedCommitIndex m > 0
                then m\<lparr>selectedCommitIndex := selectedCommitIndex m - 1\<rparr> else m, None, [])
      else if KeyString msg = S ''down'' \<or> KeyString msg = S ''j''
      then Inr (if selectedCommitIndex m < int (length commits) - 1
                then m\<lparr>selectedCommitIndex := selectedCommitIndex m + 1\<rparr> else m, None, [])
      else if KeyString msg = S ''enter''
      then (if int (length commits) > 0 \<and> selectedCommitIndex m < int (length commits)
            then (case index commits (selectedCommitIndex m) of
                    None \<Rightarrow> Inl IndexOutOfRange
                  | Some c \<Rightarrow>
                     (case index (worktrees m) (cursor m - 1) of
                        None \<Rightarrow> Inl IndexOutOfRange
                      | Some wt \<Rightarrow>
                          Inr (m\<lparr>activeCommit :=
                                   \<lparr>ShortHash = Hash c, Subject = Message c, Body = [],
                                    DetailRelTime = RelTime c, Files = [], Diff = [],
                                    Loaded = False\<rparr>,
                                 commitDetailScroll := 0,
                                 state := StateCommitDetail\<rparr>,
                               Some (loadCommitDetail (Path wt) (Hash c)), [])))
            else Inr (m, None, []))
      else Inr (m, None, []))"

definition handleCommitDetail :: "Model \<Rightarrow> KeyMsg \<Rightarrow> Result" where
  "handleCommitDetail m msg =
     (if KeyString msg = S ''esc'' then Inr (m\<lparr>state := StateRightPaneFocused\<rparr>, None, [])
      else if KeyString msg = S ''up'' \<or> KeyString msg = S ''k''
      then Inr (if commitDetailScroll m > 0
                then m\<lparr>commitDetailScroll := commitDetailScroll m - 1\<rparr> else m, None, [])
      else if KeyString msg = S ''down'' \<or> KeyString msg = S ''j''
      then Inr (m\<lparr>commitDetailScroll := wrap64 (commitDetailScroll m + 1)\<rparr>, None, [])
      else Inr (m, None, []))"

definition handleEditWorktree :: "Model \<Rightarrow> KeyMsg \<Rightarrow> Result" where
  "handleEditWorktree m msg =
     (case Type msg of
        KeyEsc \<Rightarrow> Inr (m\<lparr>state := StateList, editName := []\<rparr>, None, [])
      | KeyEnter \<Rightarrow>
          if cursor m > 0 \<and> editName m \<noteq> []
          then (case index (worktrees m) (cursor m - 1) of
                  None \<Rightarrow> Inl IndexOutOfRange
                | Some wt \<Rightarrow>
                    if Branch wt \<noteq> editName m
                    then Inr (m, Some (renameWorktree (Branch wt) (editName m)), [])
                    else Inr (m\<lparr>state := StateList\<rparr>, None, []))
          else Inr (m\<lparr>state := StateList\<rparr>, None, [])
      | KeyBackspace \<Rightarrow> Inr (m\<lparr>editName := dropLast (editName m)\<rparr>, None, [])
      | KeySpace \<Rightarrow> Inr (m\<lparr>editName := editName m @ S '' ''\<rparr>, None, [])
      | KeyRunes \<Rightarrow> Inr (m\<lparr>editName := editName m @ runesToString (Runes msg)\<rparr>, None, [])
      | _ \<Rightarrow> Inr (m, None, []))"

definition handleDeleteConfirm :: "Model \<Rightarrow> KeyMsg \<Rightarrow> Result" where
  "handleDeleteConfirm m msg =
     (if KeyString msg = S ''y''
      then (if cursor m > 0
            then (case index (worktrees m) (cursor m - 1) of
                    None \<Rightarrow> Inl IndexOutOfRange
                  | Some wt \<Rightarrow> Inr (m, Some (deleteWorktree (Branch wt) (Path wt)), []))
            else Inr (m, None, []))
      else if KeyString msg = S ''n'' \<or> KeyString msg = S ''esc''
      then Inr (m\<lparr>state := StateList\<rparr>, None, [])
      else Inr (m, None, []))"

definition handleKey :: "Env \<Rightarrow> Model \<Rightarrow> KeyMsg \<Rightarrow> Result" where
  "handleKey env m msg =
     (if KeyString msg = S ''ctrl+c'' then Inr (m, Some Quit, [])
      else if errMsg m \<noteq> [] then Inr (m\<lparr>errMsg := []\<rparr>, None, [])
      else case state m of
        StateNoGit \<Rightarrow> handleNoGit m msg
      | StateShellSetup \<Rightarrow> handleShellSetup m msg
      | StateList \<Rightarrow> handleList m msg
      | StateNewWorktree \<Rightarrow> handleNewWorktree env m msg
      | StateEditWorktree \<Rightarrow> handleEditWorktree m msg
      | StateDeleteConfirm \<Rightarrow> handleDeleteConfirm m msg
      | StateRightPaneFocused \<Rightarrow> handleRightPaneFocused m msg
      | StateCommitDetail \<Rightarrow> handleCommitDetail m msg)"

definition setErr :: "error \<Rightarrow> Model \<Rightarrow> Model" where
  "setErr err m = (case err of None \<Rightarrow> m | Some e \<Rightarrow> m\<lparr>errMsg := e\<rparr>)"

definition Update :: "Env \<Rightarrow> Model \<Rightarrow> Msg \<Rightarrow> Result" where
  "Update env m msg =
     (case msg of
        WindowSizeMsg w h \<Rightarrow> Inr (m\<lparr>width := w, height := h\<rparr>, None, [])
      | gitCheckMsg isGit \<Rightarrow>
          if \<not> isGit then Inr (m\<lparr>state := StateNoGit\<rparr>, None, [])
          else if IsShellIntegrated env then Inr (m\<lparr>state := StateList\<rparr>, Some loadWorktrees, [])
          else Inr (m\<lparr>state := StateShellSetup\<rparr>, None, [])
      | worktreesLoadedMsg l \<Rightarrow>
          (case msgErr l of
             Some e \<Rightarrow> Inr (m\<lparr>errMsg := e\<rparr>, None, [])
           | None \<Rightarrow>
               let m1 = m\<lparr>worktrees := msgWorktrees l, repoName := msgRepoName l,
                          curBranch := msgCurBranch l, remoteURL := msgRemoteURL l,
                          stashCount := msgStashCount l, fetchedAgo := msgFetchedAgo l,
                          defaultBranch := msgDefaultBranch l,
                          ghAvailable := msgGhAvailable l, state := StateList\<rparr>;
                   m2 = (if cursor m1 > int (length (worktrees m1))
                         then m1\<lparr>cursor := int (length (worktrees m1))\<rparr> else m1)
               in withFetchPR m2)
      | prFetchedMsg branch info \<Rightarrow> Inr (m\<lparr>prCache := (prCache m)(branch \<mapsto> info)\<rparr>, None, [])
      | commitDetailLoadedMsg detail err \<Rightarrow>
          (case err of
             Some e \<Rightarrow> Inr (m\<lparr>errMsg := e\<rparr>, None, [])
           | None \<Rightarrow>
               (case detail of
                  Some d \<Rightarrow> Inr (m\<lparr>activeCommit := d\<rparr>, None, [])
                | None \<Rightarrow> Inr (m, None, [])))
      | gitInitMsg err \<Rightarrow>
          (case err of
             Some e \<Rightarrow> Inr (m\<lparr>errMsg := e\<rparr>, None, [])
           | None \<Rightarrow> Inr (m\<lparr>state := StateList\<rparr>, Some loadWorktrees, []))
      | worktreeCreatedMsg err \<Rightarrow>
          Inr (setErr err (resetNewModal (m\<lparr>state := StateList\<rparr>)), Some loadWorktrees, [])
      | worktreeDeletedMsg err \<Rightarrow>
          (let m1 = setErr err (m\<lparr>state := StateList\<rparr>);
               m2 = (if cursor m1 > 0 then m1\<lparr>cursor := cursor m1 - 1\<rparr> else m1)
           in Inr (m2, Some loadWorktrees, []))
      | worktreeRenamedMsg err \<Rightarrow>
          Inr (setErr err (m\<lparr>state := StateList\<rparr>), Some loadWorktrees, [])
      | KeyPress k \<Rightarrow> handleKey env m k
      | OtherMsg \<Rightarrow> Inr (m, None, []))"

text \<open>
  The program loop hands each message to \<open>Update\<close> and goes on with the model it returns;
  a panic ends the program.
\<close>

fun run :: "Model \<Rightarrow> (Env \<times> Msg) list \<Rightarrow> Panic + Model" where
  "run m [] = Inr m"
| "run m ((env, msg) # rest) =
     (case Update env m msg of Inl p \<Rightarrow> Inl p | Inr (m', c, e) \<Rightarrow> run m' rest)"

section \<open>The view\<close>

text \<open>\<open>View\<close> keeps its own guard and dispatch and calls the screens it is given.\<close>


definition View :: "Screens \<Rightarrow> Model \<Rightarrow> gostring" where
  "View scr m =
     (if width m = 0 \<or> height m = 0 then []
      else case state m of
        StateNoGit \<Rightarrow> viewNoGit scr m
      | StateShellSetup \<Rightarrow> viewShellSetup scr m
      | _ \<Rightarrow> viewMain scr m)"

text \<open>
  A rendered piece of text is its foreground colour and its content; the empty string is
  \<open>Plain []\<close>. \<open>itoa\<close> is the \<open>%d\<close> of \<open>fmt.Sprintf\<close>.
\<close>

datatype Colour = clrPRNone | clrPROpen | clrPRMerged | clrPRClosed

datatype Styled = Plain gostring | Foreground Colour gostring

function digits :: "nat \<Rightarrow> gostring" where
  "digits n = (if n < 10 then [0x30 + n] else digits (n div 10) @ [0x30 + n mod 10])"
  by pat_completeness auto
termination
  by (relation "measure id") auto

declare digits.simps [simp del]

definition itoa :: "int \<Rightarrow> gostring" where
  "itoa i = (if i < 0 then 0x2D # digits (nat (- i)) else digits (nat i))"

definition prBadge :: "Model \<Rightarrow> gostring \<Rightarrow> Styled" where
  "prBadge m branch =
     (if \<not> ghAvailable m then Plain []
      else case prCache m branch of
        None \<Rightarrow> Plain []
      | Some None \<Rightarrow> Foreground clrPRNone (S ''no PR'')
      | Some (Some info) \<Rightarrow>
          if ToUpper (State info) = S ''OPEN''
          then Foreground clrPROpen ([0x25CF] @ S '' open  #'' @ itoa (Number info))
          else if ToUpper (State info) = S ''MERGED''
          then Foreground clrPRMerged ([0x2713] @ S '' merged  #'' @ itoa (Number info))
          else if ToUpper (State info) = S ''CLOSED''
          then Foreground clrPRClosed ([0x2717] @ S '' closed  #'' @ itoa (Number info))
          else Plain [])"

text \<open>
  The badge of the detail pane: \<open>renderDetail\<close> asks \<open>prBadge\<close> for every worktree but the
  main one, and \<open>renderRightPane\<close> calls \<open>renderDetail\<close> for the worktree under the cursor
  (\<open>None\<close> when the cursor is on the first row or beyond the list).
\<close>

definition detailBadge :: "Model \<Rightarrow> Worktree \<Rightarrow> Styled" where
  "detailBadge m wt = (if \<not> IsMain wt then prBadge m (Branch wt) else Plain [])"

definition selectedBadge :: "Model \<Rightarrow> Panic + Styled option" where
  "selectedBadge m =
     (if cursor m = 0 then Inr None
      else if cursor m - 1 < int (length (worktrees m))
      then (case index (worktrees m) (cursor m - 1) of
              None \<Rightarrow> Inl IndexOutOfRange
            | Some wt \<Rightarrow> Inr (Some (detailBadge m wt)))
      else Inr None)"

text \<open>
  The commit detail overlay: the height of its scroll window, and the part of
  \<open>renderCommitDetailOverlay\<close> headed "Apply scroll", which turns the line buffer and the
  stored offset into the offset it shows and the window of visible lines.
\<close>

definition overlayScrollH :: "Model \<Rightarrow> int" where
  "overlayScrollH m =
     (let outerH = goDiv (wrap64 (height m * 80)) 100;
          outerH = (if outerH < 10 then 10 else outerH);
          innerH = outerH - 4;
          scrollH = innerH - 2
      in if scrollH < 1 then 1 else scrollH)"

definition applyScroll :: "gostring list \<Rightarrow> int \<Rightarrow> int \<Rightarrow> int \<times> gostring list" where
  "applyScroll lines scrollH stored =
     (let total = int (length lines);
          maxScroll = (if total - scrollH < 0 then 0 else total - scrollH);
          scroll = (if stored > maxScroll then maxScroll else stored);
          visible = (if scroll > 0 \<and> scroll < int (length lines)
                     then drop (nat scroll) lines else lines);
          visible = (if int (length visible) > scrollH
                     then take (nat scrollH) visible else visible);
          visible = visible @ replicate (nat (scrollH - int (length visible))) []
      in (scroll, visible))"

definition overlayScroll :: "Model \<Rightarrow> gostring list \<Rightarrow> int \<times> gostring list" where
  "overlayScroll m lines = applyScroll lines (overlayScrollH m) (commitDetailScroll m)"

section \<open>Sample values\<close>

text \<open>An environment, a worktree with a name and a branch, and the keys used in the examples.\<close>

definition sampleEnv :: Env where
  "sampleEnv = \<lparr>IsShellIntegrated = True, wtPath = (\<lambda>p. S ''/repo/.wt/'' @ p)\<rparr>"

definition sampleWorktree :: "gostring \<Rightarrow> gostring \<Rightarrow> bool \<Rightarrow> Worktree" where
  "sampleWorktree name branch main =
     \<lparr>Name = name, Path = S ''/repo/.wt/'' @ name, Branch = branch, IsMain = main,
      UpdatedAt = [], Description = [], CreatedFrom = [], Ahead = 0, Behind = 0,
      IsMerged = False, Commits = [], HeadSHA = [], StatusChanged = 0,
      StatusUntracked = 0\<rparr>"

definition namedKey :: "KeyType \<Rightarrow> KeyMsg" where
  "namedKey t = \<lparr>Type = t, Runes = [], Alt = False, Paste = False\<rparr>"

definition runeKey :: "gostring \<Rightarrow> KeyMsg" where
  "runeKey rs = \<lparr>Type = KeyRunes, Runes = rs, Alt = False, Paste = False\<rparr>"

definition sampleScreens :: Screens where
  "sampleScreens =
     \<lparr>viewNoGit = (\<lambda>m. S ''no git''), viewShellSetup = (\<lambda>m. S ''shell setup''),
      viewMain = (\<lambda>m. S ''main'')\<rparr>"

text \<open>
  A list of two worktrees with the cursor on the second, whose branch is cached as having
  no PR, and an open PR to report.
\<close>

definition sampleListModel :: Model where
  "sampleListModel =
     InitialModel\<lparr>state := StateList, ghAvailable := True, cursor := 2,
       worktrees := [sampleWorktree (S ''a'') (S ''feat/a'') False,
                     sampleWorktree (S ''b'') (S ''feat/b'') False],
       prCache := [S ''feat/b'' \<mapsto> None]\<rparr>"

definition samplePR :: PRInfo where
  "samplePR = \<lparr>State = S ''OPEN'', Number = 7, URL = []\<rparr>"

text \<open>
  A repository with two detached worktrees beside the main one, as \<open>git.ListWorktrees\<close>
  reports it (a detached worktree gets the branch and the name \<open>(detached)\<close>), the
  completion message that loads it, the keys that walk the cursor to the second detached
  worktree, and the model the program is in then.
\<close>

definition detachedWorktrees :: "Worktree list" where
  "detachedWorktrees =
     [sampleWorktree (S ''main'') (S ''main'') True,
      (sampleWorktree (S ''(detached)'') (S ''(detached)'') False)\<lparr>Path := S ''/repo/.wt/a''\<rparr>,
      (sampleWorktree (S ''(detached)'') (S ''(detached)'') False)\<lparr>Path := S ''/repo/.wt/b''\<rparr>]"

definition detachedLoaded :: worktreesLoaded where
  "detachedLoaded =
     \<lparr>msgWorktrees = detachedWorktrees, msgRepoName = S ''repo'', msgCurBranch = S ''main'',
      msgRemoteURL = [], msgStashCount = 0, msgFetchedAgo = [],
      msgDefaultBranch = S ''main'', msgGhAvailable = True, msgHasCommits = True,
      msgErr = None\<rparr>"

definition detachedEvents :: "(Env \<times> Msg) list" where
  "detachedEvents =
     [(sampleEnv, gitCheckMsg True),
      (sampleEnv, worktreesLoadedMsg detachedLoaded),
      (sampleEnv, KeyPress (namedKey KeyDown)),
      (sampleEnv, KeyPress (namedKey KeyDown)),
      (sampleEnv, KeyPress (namedKey KeyDown))]"

definition detachedModel :: Model where
  "detachedModel =
     InitialModel\<lparr>state := StateList, worktrees := detachedWorktrees, repoName := S ''repo'',
       curBranch := S ''main'', defaultBranch := S ''main'', ghAvailable := True,
       cursor := 3\<rparr>"

section \<open>The invariant of the reachable models\<close>

text \<open>
  The cursor is a row of the list, and the two other indices that the handlers use to
  index a slice are in range of it.
\<close>

definition wellFormed :: "Model \<Rightarrow> bool" where
  "wellFormed m \<longleftrightarrow>
     0 \<le> cursor m \<and> cursor m \<le> int (length (worktrees m)) \<and>
     0 \<le> selectedCommitIndex m \<and>
     0 \<le> newTypeIdx m \<and> newTypeIdx m < int (length branchTypes)"

text \<open>A result keeps the invariant when it is not a panic and its model is well formed.\<close>

definition keepsWellFormed :: "Result \<Rightarrow> bool" where
  "keepsWellFormed r \<longleftrightarrow> (\<exists>m' c e. r = Inr (m', c, e) \<and> wellFormed m')"

section \<open>Evaluation\<close>

text \<open>The defining equations that a closed evaluation of the text helpers unfolds.\<close>

lemmas text_defs = S_def len_def utf8len_def isSpace_def Fields_def SplitNL_def wrapWords_def
  truncate_def displayWidth_def runeCells_def

section \<open>slugify\<close>

lemma slugLoop_alphabet:
  "set b \<subseteq> slugAlphabet \<Longrightarrow> set (slugLoop b p rs) \<subseteq> slugAlphabet"
  by (induction rs arbitrary: b p) (auto simp: slugAlphabet_def)

lemma slugLoop_head:
  "b = [] \<or> hd b \<noteq> 0x2D \<Longrightarrow> slugLoop b p rs = [] \<or> hd (slugLoop b p rs) \<noteq> 0x2D"
proof (induction rs arbitrary: b p)
  case Nil
  then show ?case by simp
next
  case (Cons r rs)
  have step: "\<And>c q. c \<noteq> 0x2D \<or> b \<noteq> [] \<Longrightarrow>
      slugLoop (b @ [c]) q rs = [] \<or> hd (slugLoop (b @ [c]) q rs) \<noteq> 0x2D"
    using Cons.prems by (intro Cons.IH) (auto simp: hd_append)
  show ?case using Cons.IH[OF Cons.prems] step by auto
qed

lemma adjacentHyphens_snoc:
  "adjacentHyphens (b @ [c]) \<longleftrightarrow> adjacentHyphens b \<or> (b \<noteq> [] \<and> last b = 0x2D \<and> c = 0x2D)"
  by (induction b rule: adjacentHyphens.induct) auto

lemma slugLoop_no_double:
  "\<not> adjacentHyphens b \<Longrightarrow> (b \<noteq> [] \<and> last b = 0x2D \<longrightarrow> p) \<Longrightarrow>
   \<not> adjacentHyphens (slugLoop b p rs)"
proof (induction rs arbitrary: b p)
  case Nil
  then show ?case by simp
next
  case (Cons r rs)
  have keep: "\<not> adjacentHyphens (slugLoop b p rs)"
    using Cons.prems by (rule Cons.IH)
  have plain: "\<not> adjacentHyphens (slugLoop (b @ [c]) False rs)" if "c \<noteq> 0x2D" for c
    using Cons.prems that by (intro Cons.IH) (simp_all add: adjacentHyphens_snoc)
  have hyph: "\<not> adjacentHyphens (slugLoop (b @ [0x2D]) True rs)" if "\<not> p" "b \<noteq> []"
    using Cons.prems that by (intro Cons.IH) (auto simp: adjacentHyphens_snoc)
  show ?case using keep plain[of r] plain[of "0x2F"] hyph by simp
qed

lemma adjacentHyphens_append_left:
  "adjacentHyphens xs \<Longrightarrow> adjacentHyphens (xs @ ys)"
  by (induction xs rule: adjacentHyphens.induct) auto

lemma TrimRight_decomp: "\<exists>t. s = TrimRight s c @ t \<and> set t \<subseteq> set c"
proof -
  have "rev s = takeWhile (\<lambda>r. r \<in> set c) (rev s) @ dropWhile (\<lambda>r. r \<in> set c) (rev s)"
    by simp
  then have "s = rev (dropWhile (\<lambda>r. r \<in> set c) (rev s)) @ rev (takeWhile (\<lambda>r. r \<in> set c) (rev s))"
    by (metis rev_append rev_rev_ident)
  moreover have "set (rev (takeWhile (\<lambda>r. r \<in> set c) (rev s))) \<subseteq> set c"
    by (auto dest: set_takeWhileD)
  ultimately show ?thesis unfolding TrimRight_def by blast
qed

lemma TrimRight_last: "TrimRight s c \<noteq> [] \<Longrightarrow> last (TrimRight s c) \<notin> set c"
  unfolding TrimRight_def
  by (metis (mono_tags, lifting) hd_dropWhile last_rev rev_is_Nil_conv)

lemma slugLoop_slashes:
  "count_list (slugLoop b p rs) 0x2F = count_list b 0x2F + count_list rs 0x2F"
  by (induction rs arbitrary: b p) (auto simp: isSpace_def)

lemma count_ToLower: "count_list (ToLower s) 0x2F = count_list s 0x2F"
  by (induction s) (auto simp: ToLower_def toLowerRune_def)

lemma slugChar_not_sep: "isSlugChar r \<Longrightarrow> \<not> isSlugSep r"
  by (auto simp: isSlugChar_def isSlugSep_def isSpace_def)

lemma slugRunes_Nil: "slugRunes [] = []"
  by (simp add: slugRunes_def)

lemma slugRunes_char: "isSlugChar r \<Longrightarrow> slugRunes (r # rs) = r # slugRunes rs"
  using slugChar_not_sep[of r] by (simp add: slugRunes_def)

lemma slugRunes_sep: "isSlugSep r \<Longrightarrow> slugRunes (r # rs) = 0x2D # slugRunes rs"
  by (simp add: slugRunes_def)

lemma slugRunes_other:
  "\<not> isSlugChar r \<Longrightarrow> \<not> isSlugSep r \<Longrightarrow> slugRunes (r # rs) = slugRunes rs"
  by (simp add: slugRunes_def)

lemma collapse_plain: "x \<noteq> 0x2D \<Longrightarrow> collapseHyphens (x # xs) = x # collapseHyphens xs"
  by (cases xs) simp_all

lemma collapse_hyphen:
  "collapseHyphens (0x2D # xs) = 0x2D # collapseHyphens (dropWhile (\<lambda>r. r = 0x2D) xs)"
proof (induction xs)
  case Nil
  then show ?case by simp
next
  case (Cons x xs)
  then show ?case by (cases "x = 0x2D") (simp_all add: collapse_plain)
qed

lemma dropWhile_collapse:
  "dropWhile (\<lambda>r. r = 0x2D) (collapseHyphens xs)
     = collapseHyphens (dropWhile (\<lambda>r. r = 0x2D) xs)"
proof (induction xs)
  case Nil
  then show ?case by simp
next
  case (Cons x xs)
  show ?case
  proof (cases "x = 0x2D")
    case True
    have "dropWhile (\<lambda>r. r = 0x2D) (collapseHyphens (x # xs))
        = dropWhile (\<lambda>r. r = 0x2D) (collapseHyphens (dropWhile (\<lambda>r. r = 0x2D) xs))"
      using True by (simp add: collapse_hyphen)
    also have "\<dots> = collapseHyphens (dropWhile (\<lambda>r. r = 0x2D) (dropWhile (\<lambda>r. r = 0x2D) xs))"
    proof (induction xs)
      case Nil
      then show ?case by simp
    next
      case (Cons y ys)
      then show ?case by (cases "y = 0x2D") (simp_all add: collapse_plain)
    qed
    also have "\<dots> = collapseHyphens (dropWhile (\<lambda>r. r = 0x2D) (x # xs))"
      using True by (simp add: dropWhile_idem)
    finally show ?thesis .
  next
    case False
    then show ?thesis by (simp add: collapse_plain)
  qed
qed

lemma slugLoop_spec:
  "slugLoop b p rs
     = b @ collapseHyphens (if p \<or> b = [] then dropWhile (\<lambda>r. r = 0x2D) (slugRunes rs)
                            else slugRunes rs)"
proof (induction rs arbitrary: b p)
  case Nil
  then show ?case by (simp add: slugRunes_Nil)
next
  case (Cons r rs)
  consider (alnum) "(0x61 \<le> r \<and> r \<le> 0x7A) \<or> (0x30 \<le> r \<and> r \<le> 0x39)"
    | (slash) "r = 0x2F"
    | (sep) "\<not> isSlugChar r" "isSlugSep r"
    | (other) "\<not> isSlugChar r" "\<not> isSlugSep r"
    by (auto simp: isSlugChar_def)
  then show ?case
  proof cases
    case alnum
    then have c: "isSlugChar r" and n: "r \<noteq> 0x2D" by (auto simp: isSlugChar_def)
    have "slugLoop b p (r # rs) = slugLoop (b @ [r]) False rs" using alnum by simp
    also have "\<dots> = (b @ [r]) @ collapseHyphens (slugRunes rs)" by (simp add: Cons.IH)
    also have "\<dots> = b @ collapseHyphens (r # slugRunes rs)" using n by (simp add: collapse_plain)
    finally show ?thesis using n by (simp add: slugRunes_char[OF c])
  next
    case slash
    then have c: "isSlugChar r" and n: "r \<noteq> 0x2D" by (auto simp: isSlugChar_def)
    have "slugLoop b p (r # rs) = slugLoop (b @ [r]) False rs" using slash by simp
    also have "\<dots> = (b @ [r]) @ collapseHyphens (slugRunes rs)" by (simp add: Cons.IH)
    also have "\<dots> = b @ collapseHyphens (r # slugRunes rs)" using n by (simp add: collapse_plain)
    finally show ?thesis using n by (simp add: slugRunes_char[OF c])
  next
    case sep
    then have t: "\<not> ((0x61 \<le> r \<and> r \<le> 0x7A) \<or> (0x30 \<le> r \<and> r \<le> 0x39))" "r \<noteq> 0x2F"
      "isSpace r \<or> r = 0x5F \<or> r = 0x2D"
      by (auto simp: isSlugChar_def isSlugSep_def)
    show ?thesis
    proof (cases "\<not> p \<and> b \<noteq> []")
      case True
      have "slugLoop b p (r # rs) = slugLoop (b @ [0x2D]) True rs" using t True by auto
      also have "\<dots> = (b @ [0x2D]) @ collapseHyphens (dropWhile (\<lambda>r. r = 0x2D) (slugRunes rs))"
        by (simp add: Cons.IH)
      also have "\<dots> = b @ collapseHyphens (0x2D # slugRunes rs)"
        by (simp add: collapse_hyphen)
      finally show ?thesis using True by (simp add: slugRunes_sep[OF sep(2)])
    next
      case False
      have "slugLoop b p (r # rs) = slugLoop b p rs" using t False by auto
      also have "\<dots> = b @ collapseHyphens (dropWhile (\<lambda>r. r = 0x2D) (slugRunes rs))"
        using False by (simp add: Cons.IH)
      finally show ?thesis using False by (simp add: slugRunes_sep[OF sep(2)])
    qed
  next
    case other
    then have t: "\<not> ((0x61 \<le> r \<and> r \<le> 0x7A) \<or> (0x30 \<le> r \<and> r \<le> 0x39))" "r \<noteq> 0x2F"
      "\<not> (isSpace r \<or> r = 0x5F \<or> r = 0x2D)"
      by (auto simp: isSlugChar_def isSlugSep_def)
    have "slugLoop b p (r # rs) = slugLoop b p rs" using t by auto
    then show ?thesis by (simp add: Cons.IH slugRunes_other[OF other])
  qed
qed

lemma slugify_eq_spec: "slugify s = slugifySpec s"
  by (simp add: slugify_def slugifySpec_def slugLoop_spec dropWhile_collapse)

text \<open>
  Claim C3, as the code has it. For every input \<open>slugify\<close> is the function the
  specification describes, \<open>slugifySpec\<close>: the lower-cased input with letters, digits and
  \<open>/\<close> kept, every space, underscore and hyphen read as a hyphen, every other rune
  dropped, each run of hyphens collapsed into one, leading hyphens stripped and trailing
  \<open>-\<close> and \<open>/\<close> trimmed. It maps the two examples of the specification to
  \<open>feat-auth-refresh\<close> and \<open>a/b-c\<close>. The output is made of lower-case ASCII letters,
  digits, \<open>/\<close> and \<open>-\<close> only, never has two hyphens in a row, differs from the untrimmed
  text by a trimmed suffix \<open>t\<close> of \<open>-\<close> and \<open>/\<close> with which it has exactly the slashes of
  the input, never begins with \<open>-\<close> and never ends with \<open>-\<close> or \<open>/\<close>. A leading \<open>/\<close>
  is kept.
\<close>

theorem slugify_shape:
  "slugify (S ''Feat: Auth Refresh'') = S ''feat-auth-refresh''
   \<and> slugify (S ''a/b  c'') = S ''a/b-c''
   \<and> set (slugify s) \<subseteq> slugAlphabet
   \<and> \<not> adjacentHyphens (slugify s)
   \<and> slugify s = slugifySpec s
   \<and> (\<exists>t. set t \<subseteq> {0x2D, 0x2F}
          \<and> slugify s @ t
              = dropWhile (\<lambda>r. r = 0x2D) (collapseHyphens (slugRunes (ToLower s)))
          \<and> count_list (slugify s @ t) 0x2F = count_list s 0x2F)
   \<and> \<not> prefix [0x2D] (slugify s)
   \<and> \<not> suffix [0x2D] (slugify s)
   \<and> \<not> suffix [0x2F] (slugify s)"
proof -
  let ?raw = "slugLoop [] False (ToLower s)"
  obtain t where t: "?raw = slugify s @ t" "set t \<subseteq> set (S ''-/'')"
    using TrimRight_decomp[of ?raw "S ''-/''"] unfolding slugify_def by blast
  have cut: "set (S ''-/'') = {0x2D, 0x2F}" by (simp add: S_def)
  have e1: "slugify (S ''Feat: Auth Refresh'') = S ''feat-auth-refresh''"
    by (simp add: slugify_def S_def ToLower_def toLowerRune_def isSpace_def TrimRight_def)
  have e2: "slugify (S ''a/b  c'') = S ''a/b-c''"
    by (simp add: slugify_def S_def ToLower_def toLowerRune_def isSpace_def TrimRight_def)
  have "set ?raw \<subseteq> slugAlphabet" by (rule slugLoop_alphabet) simp
  then have a: "set (slugify s) \<subseteq> slugAlphabet" using t(1) by auto
  have "\<not> adjacentHyphens ?raw" by (rule slugLoop_no_double) simp_all
  then have d: "\<not> adjacentHyphens (slugify s)"
    using t(1) adjacentHyphens_append_left by metis
  have "count_list ?raw 0x2F = count_list s 0x2F"
    by (simp add: slugLoop_slashes count_ToLower)
  moreover have "?raw = dropWhile (\<lambda>r. r = 0x2D) (collapseHyphens (slugRunes (ToLower s)))"
    by (simp add: slugLoop_spec dropWhile_collapse)
  ultimately have c: "\<exists>t. set t \<subseteq> {0x2D, 0x2F}
          \<and> slugify s @ t
              = dropWhile (\<lambda>r. r = 0x2D) (collapseHyphens (slugRunes (ToLower s)))
          \<and> count_list (slugify s @ t) 0x2F = count_list s 0x2F"
    using t cut by metis
  have q: "slugify s = slugifySpec s" by (rule slugify_eq_spec)
  have "?raw = [] \<or> hd ?raw \<noteq> 0x2D" by (rule slugLoop_head) simp
  then have "slugify s = [] \<or> hd (slugify s) \<noteq> 0x2D" using t(1) by (cases "slugify s") auto
  then have p: "\<not> prefix [0x2D] (slugify s)" by (auto simp: prefix_def)
  have l: "slugify s \<noteq> [] \<Longrightarrow> last (slugify s) \<notin> {0x2D, 0x2F}"
    using TrimRight_last[of ?raw "S ''-/''"] cut unfolding slugify_def by simp
  have s1: "\<not> suffix [0x2D] (slugify s)" using l by (auto simp: suffix_def)
  have s2: "\<not> suffix [0x2F] (slugify s)" using l by (auto simp: suffix_def)
  show ?thesis using e1 e2 a d q c p s1 s2 by blast
qed

text \<open>
  The claim of C3 as written also promises that the output never begins with \<open>/\<close>.
  The loop writes every \<open>/\<close> it reads, also the first one, and only the right end is
  trimmed: the slug of \<open>/a\<close> is \<open>/a\<close>.
\<close>

theorem slugify_leading_slash_counterexample:
  "prefix [0x2F] (slugify (S ''/a''))"
  by (simp add: slugify_def S_def ToLower_def toLowerRune_def isSpace_def TrimRight_def)

theorem slugify_shape_witness:
  "slugify (S ''--Hello_World/x/'') = S ''hello-world/x''
   \<and> slugifySpec (S ''--Hello_World/x/'') = S ''hello-world/x''
   \<and> slugify (S ''--Hello_World/x/'') = slugifySpec (S ''--Hello_World/x/'')
   \<and> set (slugify (S ''--Hello_World/x/'')) \<subseteq> slugAlphabet
   \<and> \<not> adjacentHyphens (slugify (S ''--Hello_World/x/''))
   \<and> \<not> prefix [0x2D] (slugify (S ''--Hello_World/x/''))
   \<and> \<not> suffix [0x2F] (slugify (S ''--Hello_World/x/''))"
proof -
  have v: "slugify (S ''--Hello_World/x/'') = S ''hello-world/x''"
    by (simp add: slugify_def S_def ToLower_def toLowerRune_def isSpace_def TrimRight_def)
  have w: "slugifySpec (S ''--Hello_World/x/'') = S ''hello-world/x''"
    by (simp add: slugifySpec_def slugRunes_def isSlugChar_def isSlugSep_def S_def ToLower_def
        toLowerRune_def isSpace_def TrimRight_def)
  show ?thesis using v w slugify_shape[of "S ''--Hello_World/x/''"] by blast
qed



section \<open>wrapWords\<close>









section \<open>truncate\<close>

text \<open>
  Claim C7, with the width counted in runes as the code counts it. For \<open>w \<ge> 0\<close> the
  result has at most \<open>w\<close> runes; a string of at most \<open>w\<close> runes comes back unchanged; a
  longer string with \<open>w \<ge> 2\<close> becomes its first \<open>w - 1\<close> runes followed by the ellipsis,
  exactly \<open>w\<close> runes; with \<open>w = 1\<close> it becomes its first rune alone; for \<open>w \<le> 0\<close> the
  result is empty.
\<close>

theorem truncate_runes:
  "(0 \<le> w \<longrightarrow> int (length (truncate s w)) \<le> w)
   \<and> (int (length s) \<le> w \<longrightarrow> truncate s w = s)
   \<and> (2 \<le> w \<and> w < int (length s) \<longrightarrow>
        truncate s w = take (nat (w - 1)) s @ [0x2026] \<and> int (length (truncate s w)) = w)
   \<and> (w = 1 \<and> 1 < int (length s) \<longrightarrow> truncate s w = take 1 s)
   \<and> (w \<le> 0 \<longrightarrow> truncate s w = [])"
proof -
  have bound: "0 \<le> w \<longrightarrow> int (length (truncate s w)) \<le> w"
    by (simp add: truncate_def)
  have same: "int (length s) \<le> w \<longrightarrow> truncate s w = s"
  proof
    assume a: "int (length s) \<le> w"
    show "truncate s w = s"
    proof (cases "w \<le> 0")
      case True
      then have "length s = 0" using a by linarith
      then show ?thesis using True by (simp add: truncate_def)
    next
      case False
      then show ?thesis using a by (simp add: truncate_def)
    qed
  qed
  have ell: "2 \<le> w \<and> w < int (length s) \<longrightarrow>
        truncate s w = take (nat (w - 1)) s @ [0x2026] \<and> int (length (truncate s w)) = w"
    by (auto simp: truncate_def min_def)
  have one: "w = 1 \<and> 1 < int (length s) \<longrightarrow> truncate s w = take 1 s"
    by (simp add: truncate_def)
  have none: "w \<le> 0 \<longrightarrow> truncate s w = []"
    by (simp add: truncate_def)
  show ?thesis using bound same ell one none by blast
qed

theorem truncate_runes_witness:
  "(0::int) \<le> 3 \<and> int (length (truncate (S ''hello'') 3)) \<le> 3
   \<and> truncate (S ''hello'') 3 = S ''he'' @ [0x2026]
   \<and> truncate (S ''hello'') 7 = S ''hello''
   \<and> truncate (S ''hello'') 1 = S ''h''
   \<and> truncate (S ''hello'') 0 = []"
proof -
  have l: "int (length (S ''hello'')) = 5" by (simp add: S_def)
  show ?thesis
    using truncate_runes[of 3 "S ''hello''"] truncate_runes[of 7 "S ''hello''"]
      truncate_runes[of 1 "S ''hello''"] truncate_runes[of 0 "S ''hello''"] l
    by (simp add: S_def)
qed

text \<open>
  The claim of C7 as written measures display width. The two ideographs U+65E5 U+672C
  are two runes and four terminal cells: at \<open>w = 2\<close> the function returns them unchanged,
  four cells wide.
\<close>

theorem truncate_display_width_counterexample:
  "\<not> displayWidth (truncate [0x65E5, 0x672C] 2) \<le> 2"
  by (simp add: text_defs)

section \<open>Key handling\<close>

lemma KeyString_namedKey: "KeyString (namedKey t) = keyNames t" if "t \<noteq> KeyRunes"
  using that by (simp add: KeyString_def namedKey_def)





section \<open>Scrolling the commit detail overlay\<close>

lemma wrap64_id: "- (2 ^ 63) \<le> x \<Longrightarrow> x < 2 ^ 63 \<Longrightarrow> wrap64 x = x"
  by (simp add: wrap64_def)

lemma overlayScrollH_pos: "1 \<le> overlayScrollH m"
  by (simp add: overlayScrollH_def Let_def)

lemma applyScroll_shown:
  "fst (applyScroll lines scrollH stored) = min stored (max 0 (int (length lines) - scrollH))"
  by (simp add: applyScroll_def Let_def min_def max_def)

lemma applyScroll_window:
  assumes "0 \<le> stored" and "1 \<le> scrollH"
  shows "snd (applyScroll lines scrollH stored)
         = take (nat scrollH) (drop (nat (fst (applyScroll lines scrollH stored))) lines)
           @ replicate (nat scrollH
               - length (take (nat scrollH)
                   (drop (nat (fst (applyScroll lines scrollH stored))) lines))) []"
  using assms by (auto simp: applyScroll_def Let_def min_def nat_diff_distrib')

lemma applyScroll_range:
  assumes "0 \<le> stored" and "1 \<le> scrollH"
  shows "0 \<le> fst (applyScroll lines scrollH stored)
         \<and> fst (applyScroll lines scrollH stored) \<le> max 0 (int (length lines) - scrollH)
         \<and> fst (applyScroll lines scrollH stored) \<le> stored
         \<and> int (length (snd (applyScroll lines scrollH stored))) = scrollH"
  using assms by (auto simp: applyScroll_def Let_def)

lemma down_keys:
  "S ''down'' \<noteq> S ''ctrl+c''" "S ''down'' \<noteq> S ''esc''" "S ''down'' \<noteq> S ''up''"
  "S ''down'' \<noteq> S ''k''" "S ''j'' \<noteq> S ''ctrl+c''" "S ''j'' \<noteq> S ''esc''"
  "S ''j'' \<noteq> S ''up''" "S ''j'' \<noteq> S ''k''"
  "S ''up'' \<noteq> S ''ctrl+c''" "S ''up'' \<noteq> S ''esc''" "S ''k'' \<noteq> S ''ctrl+c''"
  "S ''k'' \<noteq> S ''esc''" "S ''esc'' \<noteq> S ''ctrl+c''"
  by (simp_all add: S_def)

lemma detail_dispatch:
  "state m = StateCommitDetail \<Longrightarrow> errMsg m = [] \<Longrightarrow> KeyString k \<noteq> S ''ctrl+c'' \<Longrightarrow>
   Update env m (KeyPress k) = handleCommitDetail m k"
  by (simp add: Update_def handleKey_def)

lemma detail_down:
  assumes "KeyString k = S ''down'' \<or> KeyString k = S ''j''"
  shows "handleCommitDetail m k
         = Inr (m\<lparr>commitDetailScroll := wrap64 (commitDetailScroll m + 1)\<rparr>, None, [])"
  using assms
proof
  assume "KeyString k = S ''down''"
  then show ?thesis using down_keys by (simp add: handleCommitDetail_def)
next
  assume "KeyString k = S ''j''"
  then show ?thesis using down_keys by (simp add: handleCommitDetail_def)
qed

lemma detail_up:
  assumes "KeyString k = S ''up'' \<or> KeyString k = S ''k''"
  shows "handleCommitDetail m k
         = Inr (if commitDetailScroll m > 0
                then m\<lparr>commitDetailScroll := commitDetailScroll m - 1\<rparr> else m, None, [])"
  using assms
proof
  assume "KeyString k = S ''up''"
  then show ?thesis using down_keys by (simp add: handleCommitDetail_def)
next
  assume "KeyString k = S ''k''"
  then show ?thesis using down_keys by (simp add: handleCommitDetail_def)
qed

lemma detail_esc:
  "KeyString k = S ''esc'' \<Longrightarrow>
   handleCommitDetail m k = Inr (m\<lparr>state := StateRightPaneFocused\<rparr>, None, [])"
  by (simp add: handleCommitDetail_def)

lemma detail_other:
  "KeyString k \<notin> {S ''ctrl+c'', S ''esc'', S ''up'', S ''k'', S ''down'', S ''j''} \<Longrightarrow>
   handleCommitDetail m k = Inr (m, None, [])"
  by (simp add: handleCommitDetail_def)

lemma wrap64_top: "wrap64 (2 ^ 63 - 1 + 1) = - (2 ^ 63)"
  by (simp add: wrap64_def)

text \<open>
  The claim of C2 as written bounds the offset held in the model. \<open>handleCommitDetail\<close>
  adds one on every down key and never reads the line count: with a terminal 33 rows
  high the scroll window has 20 lines, and from the stored offset 30 a down key stores
  31, beyond the last position 30 of a 50-line buffer.
\<close>

theorem commit_detail_unclamped_counterexample:
  "Update sampleEnv
     (InitialModel\<lparr>state := StateCommitDetail, height := 33, commitDetailScroll := 30\<rparr>)
     (KeyPress (namedKey KeyDown))
   = Inr (InitialModel\<lparr>state := StateCommitDetail, height := 33, commitDetailScroll := 31\<rparr>,
          None, [])
   \<and> overlayScrollH
        (InitialModel\<lparr>state := StateCommitDetail, height := 33, commitDetailScroll := 31\<rparr>) = 20
   \<and> \<not> (31 \<le> max 0 (50 - (20::int)))"
  by (simp add: Update_def handleKey_def handleCommitDetail_def KeyString_namedKey S_def
      InitialModel_def wrap64_def overlayScrollH_def goDiv_def)

text \<open>
  Claim C2, as the code has it. In the commit detail state with no error showing, a
  down key (\<open>down\<close> or \<open>j\<close>) stores the offset plus one, with no upper clamp, for every
  offset below the largest 64-bit integer \<open>2^63 - 1\<close>, where the increment wraps to
  \<open>- 2^63\<close>; an up key (\<open>up\<close> or \<open>k\<close>) stores the offset minus one and stops at 0; \<open>esc\<close>
  returns to the focused detail pane and every other key but \<open>ctrl+c\<close> changes nothing.
  So every key press, with or without an error showing, keeps a stored offset in
  \<open>[0, 2^63 - 1)\<close> at or above 0 and at most one higher. The upper clamp is applied when
  the overlay is drawn: for every model \<open>n\<close> and line buffer the offset shown is
  \<open>min stored (max 0 (total - scrollH))\<close>, which lies in \<open>[0, max 0 (total - scrollH)]\<close>
  for a stored offset that is not negative, and the window is the \<open>scrollH\<close> lines from
  that offset on, padded with empty lines to exactly \<open>scrollH\<close>.
\<close>

theorem commit_detail_scroll:
  assumes "state m = StateCommitDetail"
  shows "(errMsg m = [] \<and> (KeyString k = S ''down'' \<or> KeyString k = S ''j'')
            \<and> - (2 ^ 63) \<le> commitDetailScroll m \<and> commitDetailScroll m < 2 ^ 63 - 1 \<longrightarrow>
          Update env m (KeyPress k)
            = Inr (m\<lparr>commitDetailScroll := commitDetailScroll m + 1\<rparr>, None, []))
       \<and> (errMsg m = [] \<and> (KeyString k = S ''down'' \<or> KeyString k = S ''j'')
            \<and> commitDetailScroll m = 2 ^ 63 - 1 \<longrightarrow>
          Update env m (KeyPress k) = Inr (m\<lparr>commitDetailScroll := - (2 ^ 63)\<rparr>, None, []))
       \<and> (errMsg m = [] \<and> (KeyString k = S ''up'' \<or> KeyString k = S ''k'') \<longrightarrow>
          Update env m (KeyPress k)
            = Inr (if commitDetailScroll m > 0
                   then m\<lparr>commitDetailScroll := commitDetailScroll m - 1\<rparr> else m, None, []))
       \<and> (errMsg m = [] \<and> KeyString k = S ''esc'' \<longrightarrow>
          Update env m (KeyPress k) = Inr (m\<lparr>state := StateRightPaneFocused\<rparr>, None, []))
       \<and> (errMsg m = [] \<and> KeyString k \<notin> {S ''ctrl+c'', S ''esc'', S ''up'', S ''k'',
                                          S ''down'', S ''j''} \<longrightarrow>
          Update env m (KeyPress k) = Inr (m, None, []))
       \<and> (0 \<le> commitDetailScroll m \<and> commitDetailScroll m < 2 ^ 63 - 1 \<longrightarrow>
          (\<exists>m' c e. Update env m (KeyPress k) = Inr (m', c, e)
             \<and> 0 \<le> commitDetailScroll m'
             \<and> commitDetailScroll m' \<le> commitDetailScroll m + 1
             \<and> 0 \<le> fst (overlayScroll m' lines)
             \<and> fst (overlayScroll m' lines) \<le> max 0 (int (length lines) - overlayScrollH m')
             \<and> int (length (snd (overlayScroll m' lines))) = overlayScrollH m'))
       \<and> fst (overlayScroll n lines)
            = min (commitDetailScroll n) (max 0 (int (length lines) - overlayScrollH n))
       \<and> (0 \<le> commitDetailScroll n \<longrightarrow>
            snd (overlayScroll n lines)
              = take (nat (overlayScrollH n)) (drop (nat (fst (overlayScroll n lines))) lines)
                @ replicate (nat (overlayScrollH n)
                    - length (take (nat (overlayScrollH n))
                        (drop (nat (fst (overlayScroll n lines))) lines))) [])"
proof -
  have cc: "KeyString k \<noteq> S ''ctrl+c''"
    if "KeyString k = S ''down'' \<or> KeyString k = S ''j'' \<or> KeyString k = S ''up''
        \<or> KeyString k = S ''k'' \<or> KeyString k = S ''esc''"
    using that down_keys by auto
  have down: "errMsg m = [] \<and> (KeyString k = S ''down'' \<or> KeyString k = S ''j'')
            \<and> - (2 ^ 63) \<le> commitDetailScroll m \<and> commitDetailScroll m < 2 ^ 63 - 1 \<longrightarrow>
          Update env m (KeyPress k)
            = Inr (m\<lparr>commitDetailScroll := commitDetailScroll m + 1\<rparr>, None, [])"
  proof
    assume a: "errMsg m = [] \<and> (KeyString k = S ''down'' \<or> KeyString k = S ''j'')
            \<and> - (2 ^ 63) \<le> commitDetailScroll m \<and> commitDetailScroll m < 2 ^ 63 - 1"
    then have w: "wrap64 (commitDetailScroll m + 1) = commitDetailScroll m + 1"
      by (intro wrap64_id) simp_all
    have "Update env m (KeyPress k) = handleCommitDetail m k"
      using a cc assms by (intro detail_dispatch) blast+
    then show "Update env m (KeyPress k)
            = Inr (m\<lparr>commitDetailScroll := commitDetailScroll m + 1\<rparr>, None, [])"
      using a w detail_down[of k m] by simp
  qed
  have top: "errMsg m = [] \<and> (KeyString k = S ''down'' \<or> KeyString k = S ''j'')
            \<and> commitDetailScroll m = 2 ^ 63 - 1 \<longrightarrow>
          Update env m (KeyPress k) = Inr (m\<lparr>commitDetailScroll := - (2 ^ 63)\<rparr>, None, [])"
  proof
    assume a: "errMsg m = [] \<and> (KeyString k = S ''down'' \<or> KeyString k = S ''j'')
            \<and> commitDetailScroll m = 2 ^ 63 - 1"
    then have w: "wrap64 (commitDetailScroll m + 1) = - (2 ^ 63)"
      using wrap64_top by simp
    have "Update env m (KeyPress k) = handleCommitDetail m k"
      using a cc assms by (intro detail_dispatch) blast+
    then show "Update env m (KeyPress k) = Inr (m\<lparr>commitDetailScroll := - (2 ^ 63)\<rparr>, None, [])"
      using a w detail_down[of k m] by simp
  qed
  have up: "errMsg m = [] \<and> (KeyString k = S ''up'' \<or> KeyString k = S ''k'') \<longrightarrow>
          Update env m (KeyPress k)
            = Inr (if commitDetailScroll m > 0
                   then m\<lparr>commitDetailScroll := commitDetailScroll m - 1\<rparr> else m, None, [])"
  proof
    assume a: "errMsg m = [] \<and> (KeyString k = S ''up'' \<or> KeyString k = S ''k'')"
    have "Update env m (KeyPress k) = handleCommitDetail m k"
      using a cc assms by (intro detail_dispatch) blast+
    then show "Update env m (KeyPress k)
            = Inr (if commitDetailScroll m > 0
                   then m\<lparr>commitDetailScroll := commitDetailScroll m - 1\<rparr> else m, None, [])"
      using a detail_up[of k m] by simp
  qed
  have esc: "errMsg m = [] \<and> KeyString k = S ''esc'' \<longrightarrow>
          Update env m (KeyPress k) = Inr (m\<lparr>state := StateRightPaneFocused\<rparr>, None, [])"
  proof
    assume a: "errMsg m = [] \<and> KeyString k = S ''esc''"
    have "Update env m (KeyPress k) = handleCommitDetail m k"
      using a cc assms by (intro detail_dispatch) blast+
    then show "Update env m (KeyPress k) = Inr (m\<lparr>state := StateRightPaneFocused\<rparr>, None, [])"
      using a detail_esc[of k m] by simp
  qed
  have other: "errMsg m = [] \<and> KeyString k \<notin> {S ''ctrl+c'', S ''esc'', S ''up'', S ''k'',
                                          S ''down'', S ''j''} \<longrightarrow>
          Update env m (KeyPress k) = Inr (m, None, [])"
  proof
    assume a: "errMsg m = [] \<and> KeyString k \<notin> {S ''ctrl+c'', S ''esc'', S ''up'', S ''k'',
                                          S ''down'', S ''j''}"
    have "Update env m (KeyPress k) = handleCommitDetail m k"
      using a assms by (intro detail_dispatch) blast+
    then show "Update env m (KeyPress k) = Inr (m, None, [])"
      using a detail_other[of k m] by simp
  qed
  have bound: "0 \<le> commitDetailScroll m \<and> commitDetailScroll m < 2 ^ 63 - 1 \<longrightarrow>
          (\<exists>m' c e. Update env m (KeyPress k) = Inr (m', c, e)
             \<and> 0 \<le> commitDetailScroll m'
             \<and> commitDetailScroll m' \<le> commitDetailScroll m + 1
             \<and> 0 \<le> fst (overlayScroll m' lines)
             \<and> fst (overlayScroll m' lines) \<le> max 0 (int (length lines) - overlayScrollH m')
             \<and> int (length (snd (overlayScroll m' lines))) = overlayScrollH m')"
  proof
    assume a: "0 \<le> commitDetailScroll m \<and> commitDetailScroll m < 2 ^ 63 - 1"
    have "\<exists>m' c e. Update env m (KeyPress k) = Inr (m', c, e)
           \<and> 0 \<le> commitDetailScroll m' \<and> commitDetailScroll m' \<le> commitDetailScroll m + 1"
      using assms a by (simp add: Update_def handleKey_def handleCommitDetail_def wrap64_id)
    then obtain m' c e where r: "Update env m (KeyPress k) = Inr (m', c, e)"
      and s: "0 \<le> commitDetailScroll m'" "commitDetailScroll m' \<le> commitDetailScroll m + 1"
      by blast
    show "\<exists>m' c e. Update env m (KeyPress k) = Inr (m', c, e)
             \<and> 0 \<le> commitDetailScroll m'
             \<and> commitDetailScroll m' \<le> commitDetailScroll m + 1
             \<and> 0 \<le> fst (overlayScroll m' lines)
             \<and> fst (overlayScroll m' lines) \<le> max 0 (int (length lines) - overlayScrollH m')
             \<and> int (length (snd (overlayScroll m' lines))) = overlayScrollH m'"
      using r s applyScroll_range[OF s(1) overlayScrollH_pos[of m'], of lines]
      unfolding overlayScroll_def by blast
  qed
  have shown: "fst (overlayScroll n lines)
            = min (commitDetailScroll n) (max 0 (int (length lines) - overlayScrollH n))"
    by (simp add: overlayScroll_def applyScroll_shown)
  have window: "0 \<le> commitDetailScroll n \<longrightarrow>
            snd (overlayScroll n lines)
              = take (nat (overlayScrollH n)) (drop (nat (fst (overlayScroll n lines))) lines)
                @ replicate (nat (overlayScrollH n)
                    - length (take (nat (overlayScrollH n))
                        (drop (nat (fst (overlayScroll n lines))) lines))) []"
    using applyScroll_window[OF _ overlayScrollH_pos[of n], of "commitDetailScroll n" lines]
    unfolding overlayScroll_def by blast
  show ?thesis using down top up esc other bound shown window by blast
qed

theorem commit_detail_scroll_witness:
  "state (InitialModel\<lparr>state := StateCommitDetail, height := 33, commitDetailScroll := 35\<rparr>)
     = StateCommitDetail
   \<and> errMsg (InitialModel\<lparr>state := StateCommitDetail, height := 33, commitDetailScroll := 35\<rparr>)
     = []
   \<and> KeyString (namedKey KeyDown) = S ''down''
   \<and> Update sampleEnv
        (InitialModel\<lparr>state := StateCommitDetail, height := 33, commitDetailScroll := 35\<rparr>)
        (KeyPress (namedKey KeyDown))
      = Inr (InitialModel\<lparr>state := StateCommitDetail, height := 33, commitDetailScroll := 36\<rparr>,
             None, [])
   \<and> fst (overlayScroll
        (InitialModel\<lparr>state := StateCommitDetail, height := 33, commitDetailScroll := 36\<rparr>)
        (replicate 50 [])) = 30"
proof -
  let ?m = "InitialModel\<lparr>state := StateCommitDetail, height := 33, commitDetailScroll := 35\<rparr>"
  let ?n = "InitialModel\<lparr>state := StateCommitDetail, height := 33, commitDetailScroll := 36\<rparr>"
  have h1: "state ?m = StateCommitDetail" by simp
  have h2: "errMsg ?m = []" by (simp add: InitialModel_def)
  have h3: "KeyString (namedKey KeyDown) = S ''down''" by (simp add: KeyString_namedKey)
  have h4: "- (2 ^ 63) \<le> commitDetailScroll ?m \<and> commitDetailScroll ?m < 2 ^ 63 - 1" by simp
  have hH: "overlayScrollH ?n = 20"
    by (simp add: overlayScrollH_def goDiv_def wrap64_def InitialModel_def)
  note all = commit_detail_scroll[OF h1, where k = "namedKey KeyDown" and env = sampleEnv
      and lines = "replicate 50 []" and n = ?n]
  have step: "Update sampleEnv ?m (KeyPress (namedKey KeyDown))
      = Inr (?m\<lparr>commitDetailScroll := commitDetailScroll ?m + 1\<rparr>, None, [])"
    using all h2 h3 h4 by blast
  have shown: "fst (overlayScroll ?n (replicate 50 []))
      = min (commitDetailScroll ?n) (max 0 (int (length (replicate 50 ([]::gostring)))
          - overlayScrollH ?n))"
    using all by blast
  show ?thesis using h1 h2 h3 step shown hH by simp
qed

section \<open>Completion of a deletion\<close>

text \<open>
  The claim of C5 as written decrements the cursor only when it exceeds the list length.
  \<open>Update\<close> decrements every cursor above 0: with three worktrees and the cursor on the
  first of them, within bounds of the list before and after the deletion, the cursor
  moves to 0.
\<close>

theorem deleted_decrements_counterexample:
  "Update sampleEnv
     (InitialModel\<lparr>state := StateDeleteConfirm, cursor := 1,
        worktrees := [sampleWorktree (S ''a'') (S ''feat/a'') False,
                      sampleWorktree (S ''b'') (S ''feat/b'') False,
                      sampleWorktree (S ''c'') (S ''feat/c'') False]\<rparr>)
     (worktreeDeletedMsg None)
   = Inr (InitialModel\<lparr>state := StateList, cursor := 0,
        worktrees := [sampleWorktree (S ''a'') (S ''feat/a'') False,
                      sampleWorktree (S ''b'') (S ''feat/b'') False,
                      sampleWorktree (S ''c'') (S ''feat/c'') False]\<rparr>,
          Some loadWorktrees, [])
   \<and> \<not> (1 > int (length [sampleWorktree (S ''a'') (S ''feat/a'') False,
                      sampleWorktree (S ''b'') (S ''feat/b'') False,
                      sampleWorktree (S ''c'') (S ''feat/c'') False]) - 1)"
  by (simp add: Update_def setErr_def InitialModel_def)

text \<open>
  Claim C5, as the code has it. A deletion completion, with or without an error, returns
  to the list state with the reload command and no other effect, keeps the loaded list,
  shows the error if there is one, and moves the cursor one row up whenever it is above
  0, whatever the list length is; a cursor at 0 stays.
\<close>

theorem deleted_returns_to_list:
  "\<exists>m'. Update env m (worktreeDeletedMsg err) = Inr (m', Some loadWorktrees, [])
        \<and> state m' = StateList
        \<and> worktrees m' = worktrees m
        \<and> errMsg m' = (case err of None \<Rightarrow> errMsg m | Some e \<Rightarrow> e)
        \<and> (cursor m > 0 \<longrightarrow> cursor m' = cursor m - 1)
        \<and> (cursor m \<le> 0 \<longrightarrow> cursor m' = cursor m)"
  by (cases err) (simp_all add: Update_def setErr_def Let_def)

theorem deleted_returns_to_list_witness:
  "\<exists>m'. Update sampleEnv (InitialModel\<lparr>state := StateDeleteConfirm, cursor := 2,
             worktrees := [sampleWorktree (S ''a'') (S ''main'') True,
                           sampleWorktree (S ''b'') (S ''feat/b'') False]\<rparr>)
           (worktreeDeletedMsg (Some (S ''busy''))) = Inr (m', Some loadWorktrees, [])
        \<and> state m' = StateList \<and> errMsg m' = S ''busy'' \<and> cursor m' = 1"
  using deleted_returns_to_list[of sampleEnv
      "InitialModel\<lparr>state := StateDeleteConfirm, cursor := 2,
             worktrees := [sampleWorktree (S ''a'') (S ''main'') True,
                           sampleWorktree (S ''b'') (S ''feat/b'') False]\<rparr>"
      "Some (S ''busy'')"]
  by auto

section \<open>PR results are keyed by branch\<close>

lemma prBadge_other:
  "b \<noteq> a \<Longrightarrow> prBadge (m\<lparr>prCache := (prCache m)(a \<mapsto> info)\<rparr>) b = prBadge m b"
  by (simp add: prBadge_def)

text \<open>
  Claim C8, for a selected worktree on another branch name. A PR completion for branch
  \<open>a\<close> returns the model with the cache entry of \<open>a\<close> set to the reported value and
  nothing else changed, no command and no effect. The cursor is not read: every other
  branch keeps its cache entry and its badge, and the badge of the detail pane is the
  same as before whenever the worktree under the cursor is on a branch name other than
  \<open>a\<close>.
\<close>

theorem prFetched_keyed_by_branch:
  "\<exists>m'. Update env m (prFetchedMsg a info) = Inr (m', None, [])
        \<and> m' = m\<lparr>prCache := (prCache m)(a \<mapsto> info)\<rparr>
        \<and> prCache m' a = Some info
        \<and> (\<forall>b. b \<noteq> a \<longrightarrow> prCache m' b = prCache m b \<and> prBadge m' b = prBadge m b)
        \<and> (\<forall>wt. Branch wt \<noteq> a \<longrightarrow> detailBadge m' wt = detailBadge m wt)
        \<and> (\<forall>wt. index (worktrees m) (cursor m - 1) = Some wt \<and> Branch wt \<noteq> a
               \<longrightarrow> selectedBadge m' = selectedBadge m)"
  by (auto simp: Update_def prBadge_other detailBadge_def selectedBadge_def)

theorem prFetched_keyed_by_branch_witness:
  "index (worktrees sampleListModel) (cursor sampleListModel - 1)
     = Some (sampleWorktree (S ''b'') (S ''feat/b'') False)
   \<and> Branch (sampleWorktree (S ''b'') (S ''feat/b'') False) \<noteq> S ''feat/a''
   \<and> selectedBadge sampleListModel = Inr (Some (Foreground clrPRNone (S ''no PR'')))
   \<and> (\<exists>m'. Update sampleEnv sampleListModel (prFetchedMsg (S ''feat/a'') (Some samplePR))
              = Inr (m', None, [])
         \<and> prCache m' (S ''feat/a'') = Some (Some samplePR)
         \<and> selectedBadge m' = Inr (Some (Foreground clrPRNone (S ''no PR''))))"
proof -
  have h1: "index (worktrees sampleListModel) (cursor sampleListModel - 1)
     = Some (sampleWorktree (S ''b'') (S ''feat/b'') False)"
    by (simp add: sampleListModel_def index_def)
  have h2: "Branch (sampleWorktree (S ''b'') (S ''feat/b'') False) \<noteq> S ''feat/a''"
    by (simp add: sampleWorktree_def S_def)
  have b: "selectedBadge sampleListModel = Inr (Some (Foreground clrPRNone (S ''no PR'')))"
    by (simp add: selectedBadge_def detailBadge_def prBadge_def sampleListModel_def index_def
        sampleWorktree_def)
  show ?thesis
    using h1 h2 b
      prFetched_keyed_by_branch[of sampleEnv sampleListModel "S ''feat/a''" "Some samplePR"]
    by metis
qed

lemma step_load:
  "Update sampleEnv (InitialModel\<lparr>state := StateList\<rparr>) (worktreesLoadedMsg detachedLoaded)
   = Inr (detachedModel\<lparr>cursor := 0\<rparr>, None, [])"
  by (simp add: Update_def detachedLoaded_def detachedModel_def InitialModel_def
      withFetchPR_def maybeFetchPR_def Let_def)

lemma step_down:
  "c \<in> {0, 1, 2} \<Longrightarrow>
   Update sampleEnv (detachedModel\<lparr>cursor := c\<rparr>) (KeyPress (namedKey KeyDown))
   = Inr (detachedModel\<lparr>cursor := c + 1\<rparr>,
          if c = 0 then None else Some (fetchPR (S ''(detached)'')), [])"
  by (auto simp: Update_def handleKey_def handleList_def KeyString_namedKey S_def
      detachedModel_def InitialModel_def detachedWorktrees_def sampleWorktree_def
      withFetchPR_def maybeFetchPR_def index_def Let_def)

text \<open>
  The claim of C8 as written holds the badge of the selected worktree B fixed for any two
  worktrees A and B. The cache is keyed by the branch name, and every detached worktree
  has the branch name \<open>(detached)\<close>: with two of them, moving the cursor over the first
  issues its fetch, and when that fetch completes with the cursor on the second, the
  badge of the second goes from empty to \<open>no PR\<close>.
\<close>

theorem prFetched_shared_branch_counterexample:
  "run InitialModel detachedEvents = Inr detachedModel
   \<and> Update sampleEnv (detachedModel\<lparr>cursor := 1\<rparr>) (KeyPress (namedKey KeyDown))
       = Inr (detachedModel\<lparr>cursor := 2\<rparr>, Some (fetchPR (S ''(detached)'')), [])
   \<and> selectedBadge detachedModel = Inr (Some (Plain []))
   \<and> Update sampleEnv detachedModel (prFetchedMsg (S ''(detached)'') None)
       = Inr (detachedModel\<lparr>prCache := [S ''(detached)'' \<mapsto> None]\<rparr>, None, [])
   \<and> selectedBadge (detachedModel\<lparr>prCache := [S ''(detached)'' \<mapsto> None]\<rparr>)
       = Inr (Some (Foreground clrPRNone (S ''no PR'')))"
proof -
  have r0: "Update sampleEnv InitialModel (gitCheckMsg True)
      = Inr (InitialModel\<lparr>state := StateList\<rparr>, Some loadWorktrees, [])"
    by (simp add: Update_def sampleEnv_def)
  have d0: "Update sampleEnv (detachedModel\<lparr>cursor := 0\<rparr>) (KeyPress (namedKey KeyDown))
      = Inr (detachedModel\<lparr>cursor := 1\<rparr>, None, [])"
    using step_down[of 0] by simp
  have d1: "Update sampleEnv (detachedModel\<lparr>cursor := 1\<rparr>) (KeyPress (namedKey KeyDown))
      = Inr (detachedModel\<lparr>cursor := 2\<rparr>, Some (fetchPR (S ''(detached)'')), [])"
    using step_down[of 1] by simp
  have d2: "Update sampleEnv (detachedModel\<lparr>cursor := 2\<rparr>) (KeyPress (namedKey KeyDown))
      = Inr (detachedModel\<lparr>cursor := 3\<rparr>, Some (fetchPR (S ''(detached)'')), [])"
    using step_down[of 2] by simp
  have same: "detachedModel\<lparr>cursor := 3\<rparr> = detachedModel" by (simp add: detachedModel_def)
  have run: "run InitialModel detachedEvents = Inr detachedModel"
    by (simp add: detachedEvents_def r0 step_load d0 d1 d2 same)
  have b0: "selectedBadge detachedModel = Inr (Some (Plain []))"
    by (simp add: selectedBadge_def detailBadge_def prBadge_def detachedModel_def index_def
        detachedWorktrees_def sampleWorktree_def InitialModel_def)
  have u: "Update sampleEnv detachedModel (prFetchedMsg (S ''(detached)'') None)
       = Inr (detachedModel\<lparr>prCache := [S ''(detached)'' \<mapsto> None]\<rparr>, None, [])"
    by (simp add: Update_def detachedModel_def InitialModel_def)
  have b1: "selectedBadge (detachedModel\<lparr>prCache := [S ''(detached)'' \<mapsto> None]\<rparr>)
       = Inr (Some (Foreground clrPRNone (S ''no PR'')))"
    by (simp add: selectedBadge_def detailBadge_def prBadge_def detachedModel_def index_def
        detachedWorktrees_def sampleWorktree_def InitialModel_def)
  show ?thesis using run d1 b0 u b1 by blast
qed

section \<open>Submitting the rename modal\<close>




section \<open>The cursor stays on a row of the list\<close>

text \<open>
  Every handler, started on a well-formed model, returns without a panic and returns a
  well-formed model. The handlers are chains of tests on the key; \<open>keeps_if\<close> walks a
  chain branch by branch.
\<close>

lemma length_branchTypes: "length branchTypes = 10"
  by (simp add: branchTypes_def)

lemma index_in_range: "0 \<le> i \<Longrightarrow> i < int (length xs) \<Longrightarrow> index xs i = Some (xs ! nat i)"
  by (simp add: index_def)

lemma keeps_if:
  "(c \<Longrightarrow> keepsWellFormed a) \<Longrightarrow> (\<not> c \<Longrightarrow> keepsWellFormed b) \<Longrightarrow>
   keepsWellFormed (if c then a else b)"
  by simp

lemma keeps_Inr: "wellFormed m \<Longrightarrow> keepsWellFormed (Inr (m, c, e))"
  by (simp add: keepsWellFormed_def)

lemma selected_index:
  "wellFormed m \<Longrightarrow> 0 < cursor m \<Longrightarrow>
   index (worktrees m) (cursor m - 1) = Some (worktrees m ! nat (cursor m - 1))"
  by (intro index_in_range) (auto simp: wellFormed_def)

lemma maybeFetchPR_ok: "wellFormed m \<Longrightarrow> \<exists>c. maybeFetchPR m = Inr c"
proof -
  assume wf: "wellFormed m"
  show ?thesis
  proof (cases "\<not> ghAvailable m \<or> cursor m = 0 \<or> cursor m - 1 \<ge> int (length (worktrees m))")
    case True
    then show ?thesis by (simp add: maybeFetchPR_def)
  next
    case False
    then have "0 < cursor m" using wf by (auto simp: wellFormed_def)
    then show ?thesis using False selected_index[OF wf] by (simp add: maybeFetchPR_def)
  qed
qed

lemma withFetchPR_ok: "wellFormed m \<Longrightarrow> keepsWellFormed (withFetchPR m)"
  using maybeFetchPR_ok[of m] by (auto simp: withFetchPR_def keepsWellFormed_def)

lemma resetNewModal_ok: "wellFormed m \<Longrightarrow> wellFormed (resetNewModal m)"
  by (simp add: wellFormed_def resetNewModal_def length_branchTypes)

lemma openNewModal_ok: "wellFormed m \<Longrightarrow> wellFormed (openNewModal m)"
  by (simp add: wellFormed_def openNewModal_def resetNewModal_def length_branchTypes)

lemma recalcBranch_ok:
  assumes "wellFormed m"
  shows "\<exists>m'. recalcBranch m = Inr m' \<and> wellFormed m'"
proof -
  have "index branchTypes (newTypeIdx m) = Some (branchTypes ! nat (newTypeIdx m))"
    using assms by (intro index_in_range) (auto simp: wellFormed_def)
  then show ?thesis using assms by (simp add: recalcBranch_def Let_def wellFormed_def)
qed

lemma noCmd_ok:
  "\<exists>m'. r = Inr m' \<and> wellFormed m' \<Longrightarrow> keepsWellFormed (noCmd r)"
  by (auto simp: noCmd_def keepsWellFormed_def)

lemma handleNoGit_ok: "wellFormed m \<Longrightarrow> keepsWellFormed (handleNoGit m k)"
  unfolding handleNoGit_def by (intro keeps_if keeps_Inr)

lemma handleShellSetup_ok: "wellFormed m \<Longrightarrow> keepsWellFormed (handleShellSetup m k)"
  unfolding handleShellSetup_def
  by (intro keeps_if keeps_Inr) (simp_all add: wellFormed_def)

lemma handleList_ok:
  assumes wf: "wellFormed m"
  shows "keepsWellFormed (handleList m k)"
proof -
  have up: "wellFormed (if cursor m > 0 then m\<lparr>cursor := cursor m - 1\<rparr> else m)"
    using wf by (simp add: wellFormed_def)
  have down: "wellFormed (if cursor m < int (length (worktrees m)) + 1 - 1
               then m\<lparr>cursor := cursor m + 1\<rparr> else m)"
    using wf by (simp add: wellFormed_def)
  have upd: "wellFormed (m\<lparr>selectedCommitIndex := 0, state := StateRightPaneFocused\<rparr>)"
    "wellFormed (m\<lparr>state := StateDeleteConfirm\<rparr>)"
    "\<And>n. wellFormed (m\<lparr>editName := n, state := StateEditWorktree\<rparr>)"
    using wf by (simp_all add: wellFormed_def)
  have d: "0 < cursor m \<Longrightarrow> keepsWellFormed
      (case index (worktrees m) (cursor m - 1) of
         None \<Rightarrow> Inl IndexOutOfRange
       | Some wt \<Rightarrow> if \<not> IsMain wt then Inr (m\<lparr>state := StateDeleteConfirm\<rparr>, None, [])
                    else Inr (m, None, []))"
    using selected_index[OF wf] upd(2) wf by (simp add: keepsWellFormed_def)
  have e: "0 < cursor m \<Longrightarrow> keepsWellFormed
      (case index (worktrees m) (cursor m - 1) of
         None \<Rightarrow> Inl IndexOutOfRange
       | Some wt \<Rightarrow> Inr (m\<lparr>editName := Branch wt, state := StateEditWorktree\<rparr>, None, []))"
    using selected_index[OF wf] upd(3) by (simp add: keepsWellFormed_def)
  have c: "0 < cursor m \<Longrightarrow> keepsWellFormed
      (case index (worktrees m) (cursor m - 1) of
         None \<Rightarrow> Inl IndexOutOfRange
       | Some wt \<Rightarrow> Inr (m, Some Quit, [WriteCDPath (Path wt)]))"
    using selected_index[OF wf] wf by (simp add: keepsWellFormed_def)
  show ?thesis
    unfolding handleList_def Let_def
    by (intro keeps_if keeps_Inr withFetchPR_ok up down upd wf openNewModal_ok d e c)
qed


lemma appendRunes_ok:
  assumes "wellFormed m"
  shows "\<exists>m'. appendRunes m rs = Inr m' \<and> wellFormed m'"
proof -
  have a: "wellFormed (m\<lparr>newDisplayName := newDisplayName m @ runesToString rs\<rparr>)"
    using assms by (simp add: wellFormed_def)
  have b: "\<And>x. wellFormed (m\<lparr>newBranch := x, newBranchEdited := True\<rparr>)"
    "\<And>x. wellFormed (m\<lparr>newDescription := x\<rparr>)"
    using assms by (simp_all add: wellFormed_def)
  show ?thesis
    unfolding appendRunes_def using recalcBranch_ok[OF a] b assms by simp
qed

lemma deleteChar_ok:
  assumes "wellFormed m"
  shows "\<exists>m'. deleteChar m = Inr m' \<and> wellFormed m'"
proof -
  have a: "wellFormed (m\<lparr>newDisplayName := dropLast (newDisplayName m)\<rparr>)"
    using assms by (simp add: wellFormed_def)
  have b: "\<And>x. wellFormed (m\<lparr>newBranch := x, newBranchEdited := True\<rparr>)"
    "\<And>x. wellFormed (m\<lparr>newDescription := x\<rparr>)"
    using assms by (simp_all add: wellFormed_def)
  show ?thesis
    unfolding deleteChar_def using recalcBranch_ok[OF a] b assms by simp
qed

lemma handleTypeList_ok:
  assumes wf: "wellFormed m"
  shows "keepsWellFormed (handleTypeList m k)"
proof -
  have up: "wellFormed (if newTypeIdx m > 0 then m\<lparr>newTypeIdx := newTypeIdx m - 1\<rparr> else m)"
    using wf by (simp add: wellFormed_def)
  have down: "wellFormed (if newTypeIdx m < int (length branchTypes) - 1
                then m\<lparr>newTypeIdx := newTypeIdx m + 1\<rparr> else m)"
    using wf by (simp add: wellFormed_def)
  have closed: "wellFormed (m\<lparr>newTypeListOpen := False\<rparr>)"
    using wf by (simp add: wellFormed_def)
  show ?thesis
    unfolding handleTypeList_def
    by (intro keeps_if keeps_Inr noCmd_ok recalcBranch_ok up down closed wf)
qed

lemma handleNewWorktree_ok:
  assumes wf: "wellFormed m"
  shows "keepsWellFormed (handleNewWorktree env m k)"
proof (cases "newTypeListOpen m")
  case True
  then show ?thesis using handleTypeList_ok[OF wf] by (simp add: handleNewWorktree_def)
next
  case False
  have esc: "wellFormed (resetNewModal (m\<lparr>state := StateList\<rparr>))"
    by (rule resetNewModal_ok) (use wf in \<open>simp add: wellFormed_def\<close>)
  have fld: "\<And>x. wellFormed (m\<lparr>newActiveField := x\<rparr>)"
    "wellFormed (m\<lparr>newTypeListOpen := True\<rparr>)"
    using wf by (simp_all add: wellFormed_def)
  have enter: "keepsWellFormed
      (if newActiveField m = 0 then Inr (m\<lparr>newTypeListOpen := True\<rparr>, None, [])
       else if newDisplayName m \<noteq> [] \<and> newBranch m \<noteq> []
       then Inr (m, Some (createWorktree (newDisplayName m) (newBranch m)
                            (wtPath env (ReplaceSlash (newBranch m))) (newDescription m)), [])
       else Inr (m, None, []))"
    by (intro keeps_if keeps_Inr fld wf)
  show ?thesis
    using False esc fld enter wf
      noCmd_ok[OF appendRunes_ok[OF wf]] noCmd_ok[OF deleteChar_ok[OF wf]]
    by (cases "Type k") (simp_all add: handleNewWorktree_def keeps_Inr)
qed

lemma handleRightPaneFocused_ok:
  assumes wf: "wellFormed m"
  shows "keepsWellFormed (handleRightPaneFocused m k)"
proof -
  let ?commits = "selectedCommits m"
  have s: "wellFormed (m\<lparr>state := StateList\<rparr>)"
    "wellFormed (if selectedCommitIndex m > 0
                 then m\<lparr>selectedCommitIndex := selectedCommitIndex m - 1\<rparr> else m)"
    "wellFormed (if selectedCommitIndex m < int (length ?commits) - 1
                 then m\<lparr>selectedCommitIndex := selectedCommitIndex m + 1\<rparr> else m)"
    using wf by (simp_all add: wellFormed_def)
  have enter: "keepsWellFormed
      (case index ?commits (selectedCommitIndex m) of
         None \<Rightarrow> Inl IndexOutOfRange
       | Some c \<Rightarrow>
          (case index (worktrees m) (cursor m - 1) of
             None \<Rightarrow> Inl IndexOutOfRange
           | Some wt \<Rightarrow>
               Inr (m\<lparr>activeCommit :=
                        \<lparr>ShortHash = Hash c, Subject = Message c, Body = [],
                         DetailRelTime = RelTime c, Files = [], Diff = [],
                         Loaded = False\<rparr>,
                      commitDetailScroll := 0,
                      state := StateCommitDetail\<rparr>,
                    Some (loadCommitDetail (Path wt) (Hash c)), [])))"
    if a: "int (length ?commits) > 0 \<and> selectedCommitIndex m < int (length ?commits)"
  proof -
    have pos: "0 < cursor m"
      using a by (auto simp: selectedCommits_def split: if_splits)
    have i1: "index ?commits (selectedCommitIndex m)
        = Some (?commits ! nat (selectedCommitIndex m))"
      using a wf by (intro index_in_range) (auto simp: wellFormed_def)
    have "\<And>x. wellFormed (m\<lparr>activeCommit := x, commitDetailScroll := 0,
                            state := StateCommitDetail\<rparr>)"
      using wf by (simp add: wellFormed_def)
    then show ?thesis
      using i1 selected_index[OF wf pos] by (simp add: keepsWellFormed_def)
  qed
  show ?thesis
    unfolding handleRightPaneFocused_def Let_def
    by (intro keeps_if keeps_Inr s wf enter)
qed

lemma handleCommitDetail_ok:
  assumes wf: "wellFormed m"
  shows "keepsWellFormed (handleCommitDetail m k)"
proof -
  have s: "wellFormed (m\<lparr>state := StateRightPaneFocused\<rparr>)"
    "wellFormed (if commitDetailScroll m > 0
                 then m\<lparr>commitDetailScroll := commitDetailScroll m - 1\<rparr> else m)"
    "\<And>x. wellFormed (m\<lparr>commitDetailScroll := x\<rparr>)"
    using wf by (simp_all add: wellFormed_def)
  show ?thesis
    unfolding handleCommitDetail_def by (intro keeps_if keeps_Inr s wf)
qed

lemma handleEditWorktree_ok:
  assumes wf: "wellFormed m"
  shows "keepsWellFormed (handleEditWorktree m k)"
proof -
  have s: "wellFormed (m\<lparr>state := StateList, editName := []\<rparr>)"
    "wellFormed (m\<lparr>state := StateList\<rparr>)"
    "\<And>x. wellFormed (m\<lparr>editName := x\<rparr>)"
    using wf by (simp_all add: wellFormed_def)
  have enter: "keepsWellFormed
      (if cursor m > 0 \<and> editName m \<noteq> []
       then (case index (worktrees m) (cursor m - 1) of
               None \<Rightarrow> Inl IndexOutOfRange
             | Some wt \<Rightarrow>
                 if Branch wt \<noteq> editName m
                 then Inr (m, Some (renameWorktree (Branch wt) (editName m)), [])
                 else Inr (m\<lparr>state := StateList\<rparr>, None, []))
       else Inr (m\<lparr>state := StateList\<rparr>, None, []))"
  proof -
    have inner: "keepsWellFormed
        (case index (worktrees m) (cursor m - 1) of
           None \<Rightarrow> Inl IndexOutOfRange
         | Some wt \<Rightarrow>
             if Branch wt \<noteq> editName m
             then Inr (m, Some (renameWorktree (Branch wt) (editName m)), [])
             else Inr (m\<lparr>state := StateList\<rparr>, None, []))"
      if "cursor m > 0 \<and> editName m \<noteq> []"
      using that selected_index[OF wf] s(2) wf by (simp add: keepsWellFormed_def)
    show ?thesis by (intro keeps_if keeps_Inr s inner)
  qed
  show ?thesis
    using s enter wf
    by (cases "Type k") (simp_all add: handleEditWorktree_def keeps_Inr)
qed

lemma handleDeleteConfirm_ok:
  assumes wf: "wellFormed m"
  shows "keepsWellFormed (handleDeleteConfirm m k)"
proof -
  have s: "wellFormed (m\<lparr>state := StateList\<rparr>)"
    using wf by (simp add: wellFormed_def)
  have y: "0 < cursor m \<Longrightarrow> keepsWellFormed
      (case index (worktrees m) (cursor m - 1) of
         None \<Rightarrow> Inl IndexOutOfRange
       | Some wt \<Rightarrow> Inr (m, Some (deleteWorktree (Branch wt) (Path wt)), []))"
    using selected_index[OF wf] wf by (simp add: keepsWellFormed_def)
  show ?thesis
    unfolding handleDeleteConfirm_def by (intro keeps_if keeps_Inr s wf y)
qed

lemma handleKey_ok:
  assumes wf: "wellFormed m"
  shows "keepsWellFormed (handleKey env m k)"
proof -
  have clr: "wellFormed (m\<lparr>errMsg := []\<rparr>)" using wf by (simp add: wellFormed_def)
  have disp: "keepsWellFormed
      (case state m of
         StateNoGit \<Rightarrow> handleNoGit m k
       | StateShellSetup \<Rightarrow> handleShellSetup m k
       | StateList \<Rightarrow> handleList m k
       | StateNewWorktree \<Rightarrow> handleNewWorktree env m k
       | StateEditWorktree \<Rightarrow> handleEditWorktree m k
       | StateDeleteConfirm \<Rightarrow> handleDeleteConfirm m k
       | StateRightPaneFocused \<Rightarrow> handleRightPaneFocused m k
       | StateCommitDetail \<Rightarrow> handleCommitDetail m k)"
    using handleNoGit_ok[OF wf] handleShellSetup_ok[OF wf] handleList_ok[OF wf]
      handleNewWorktree_ok[OF wf] handleEditWorktree_ok[OF wf] handleDeleteConfirm_ok[OF wf]
      handleRightPaneFocused_ok[OF wf] handleCommitDetail_ok[OF wf]
    by (cases "state m") simp_all
  show ?thesis
    unfolding handleKey_def by (intro keeps_if keeps_Inr clr wf disp)
qed

lemma setErr_ok: "wellFormed m \<Longrightarrow> wellFormed (setErr err m)"
  by (cases err) (simp_all add: setErr_def wellFormed_def)

lemma Update_ok:
  assumes wf: "wellFormed m"
  shows "keepsWellFormed (Update env m msg)"
proof (cases msg)
  case (WindowSizeMsg w h)
  then show ?thesis using wf by (simp add: Update_def keepsWellFormed_def wellFormed_def)
next
  case (gitCheckMsg isGit)
  then show ?thesis using wf by (simp add: Update_def keepsWellFormed_def wellFormed_def)
next
  case (worktreesLoadedMsg l)
  show ?thesis
  proof (cases "msgErr l")
    case (Some e)
    then show ?thesis using wf worktreesLoadedMsg
      by (simp add: Update_def keepsWellFormed_def wellFormed_def)
  next
    case None
    let ?m1 = "m\<lparr>worktrees := msgWorktrees l, repoName := msgRepoName l,
                 curBranch := msgCurBranch l, remoteURL := msgRemoteURL l,
                 stashCount := msgStashCount l, fetchedAgo := msgFetchedAgo l,
                 defaultBranch := msgDefaultBranch l,
                 ghAvailable := msgGhAvailable l, state := StateList\<rparr>"
    let ?m2 = "if cursor ?m1 > int (length (worktrees ?m1))
               then ?m1\<lparr>cursor := int (length (worktrees ?m1))\<rparr> else ?m1"
    have "wellFormed ?m2" using wf by (simp add: wellFormed_def)
    then have "keepsWellFormed (withFetchPR ?m2)" by (rule withFetchPR_ok)
    moreover have "Update env m msg = withFetchPR ?m2"
      using worktreesLoadedMsg None by (simp add: Update_def Let_def)
    ultimately show ?thesis by simp
  qed
next
  case (prFetchedMsg b i)
  then show ?thesis using wf by (simp add: Update_def keepsWellFormed_def wellFormed_def)
next
  case (commitDetailLoadedMsg d e)
  then show ?thesis using wf
    by (cases e; cases d) (simp_all add: Update_def keepsWellFormed_def wellFormed_def)
next
  case (gitInitMsg e)
  then show ?thesis using wf
    by (cases e) (simp_all add: Update_def keepsWellFormed_def wellFormed_def)
next
  case (worktreeCreatedMsg e)
  have "wellFormed (m\<lparr>state := StateList\<rparr>)" using wf by (simp add: wellFormed_def)
  then have "wellFormed (setErr e (resetNewModal (m\<lparr>state := StateList\<rparr>)))"
    by (intro setErr_ok resetNewModal_ok)
  then show ?thesis using worktreeCreatedMsg by (simp add: Update_def keepsWellFormed_def)
next
  case (worktreeDeletedMsg e)
  have "wellFormed (m\<lparr>state := StateList\<rparr>)" using wf by (simp add: wellFormed_def)
  then have a: "wellFormed (setErr e (m\<lparr>state := StateList\<rparr>))" by (rule setErr_ok)
  have "wellFormed (if cursor (setErr e (m\<lparr>state := StateList\<rparr>)) > 0
          then (setErr e (m\<lparr>state := StateList\<rparr>))
                 \<lparr>cursor := cursor (setErr e (m\<lparr>state := StateList\<rparr>)) - 1\<rparr>
          else setErr e (m\<lparr>state := StateList\<rparr>))"
    using a by (simp add: wellFormed_def)
  then show ?thesis using worktreeDeletedMsg
    by (simp add: Update_def keepsWellFormed_def Let_def)
next
  case (worktreeRenamedMsg e)
  have "wellFormed (m\<lparr>state := StateList\<rparr>)" using wf by (simp add: wellFormed_def)
  then have "wellFormed (setErr e (m\<lparr>state := StateList\<rparr>))" by (rule setErr_ok)
  then show ?thesis using worktreeRenamedMsg by (simp add: Update_def keepsWellFormed_def)
next
  case (KeyPress k)
  then show ?thesis using handleKey_ok[OF wf] by (simp add: Update_def)
next
  case OtherMsg
  then show ?thesis using wf by (simp add: Update_def keepsWellFormed_def)
qed

lemma run_ok:
  "wellFormed m \<Longrightarrow> \<exists>m'. run m evs = Inr m' \<and> wellFormed m'"
proof (induction evs arbitrary: m)
  case Nil
  then show ?case by simp
next
  case (Cons ev evs)
  obtain env msg where ev: "ev = (env, msg)" by (cases ev)
  obtain m1 c e where u: "Update env m msg = Inr (m1, c, e)" and wf1: "wellFormed m1"
    using Update_ok[OF Cons.prems, of env msg] by (auto simp: keepsWellFormed_def)
  show ?case using Cons.IH[OF wf1] ev u by simp
qed

lemma wellFormed_InitialModel: "wellFormed InitialModel"
  by (simp add: wellFormed_def InitialModel_def length_branchTypes)

text \<open>
  Claim C4. From the initial model, every sequence of messages (key presses, resizes,
  completions, each with the environment it is handled in) is processed without a panic,
  and the model it ends in has its cursor within \<open>[0, len(worktrees)]\<close> of the list loaded
  at that moment. Every prefix of a sequence is a sequence, so the cursor is in range
  after every message.
\<close>

theorem cursor_in_range:
  "\<exists>m. run InitialModel evs = Inr m
       \<and> 0 \<le> cursor m \<and> cursor m \<le> int (length (worktrees m))"
  using run_ok[OF wellFormed_InitialModel, of evs] by (auto simp: wellFormed_def)

theorem cursor_in_range_witness:
  "\<exists>m. run InitialModel
         [(sampleEnv, gitCheckMsg True),
          (sampleEnv, KeyPress (runeKey (S ''j''))),
          (sampleEnv, worktreeDeletedMsg None),
          (sampleEnv, KeyPress (namedKey KeyDown))] = Inr m
       \<and> 0 \<le> cursor m \<and> cursor m \<le> int (length (worktrees m))"
  by (rule cursor_in_range)

section \<open>The empty frame\<close>

text \<open>
  Claim C10. For every model whose width is 0 or whose height is 0, as the initial model
  is until the first resize message, \<open>View\<close> returns the empty string, whatever the state
  and the data are.
\<close>

theorem View_empty:
  assumes "width m = 0 \<or> height m = 0"
  shows "View scr m = []"
  using assms by (auto simp: View_def)

theorem View_empty_witness:
  "(width (InitialModel\<lparr>width := 80, state := StateList\<rparr>) = 0
     \<or> height (InitialModel\<lparr>width := 80, state := StateList\<rparr>) = 0)
   \<and> View sampleScreens (InitialModel\<lparr>width := 80, state := StateList\<rparr>) = []"
proof -
  let ?m = "InitialModel\<lparr>width := 80, state := StateList\<rparr>"
  have h: "width ?m = 0 \<or> height ?m = 0" by (simp add: InitialModel_def)
  show ?thesis using h View_empty[OF h, of sampleScreens] by simp
qed

end
